theory Spec2Isabelle
  imports Complex_Main "HOL-Library.Multiset" "HOL-Library.Product_Lexorder"
begin

section \<open>Scoring engine (src/lib/rankingHelper.ts, the scoring module)\<close>

text \<open>
  Numbers. The scoring module computes on JavaScript numbers. Handicaps, gross scores,
  hole numbers and totals are integers in this application, so they are modelled as
  \<^typ>\<open>int\<close>. Two expressions of the source leave the integers:
  \<^item> \<^verbatim>\<open>Math.round(sum * 0.1)\<close>: the nearest integer to a tenth of \<open>sum\<close>, a tie going
    up (towards plus infinity). For an integer \<open>sum\<close> the double product is the exact
    half whenever \<open>sum\<close> ends in 5, so the result is \<open>(sum + 5) div 10\<close>.
  \<^item> \<^verbatim>\<open>Math.floor(((holeNumber - 1) / totalHoles) * 18)\<close>: the floor of the quotient,
    \<open>((holeNumber - 1) * 18) div totalHoles\<close> for a non-zero \<open>totalHoles\<close> (Isabelle's
    \<open>div\<close> on \<^typ>\<open>int\<close> is the floor of the quotient); with \<open>totalHoles = 0\<close> the
    quotient is infinite or NaN and indexes nothing.
  A read past the end of an array gives \<^verbatim>\<open>undefined\<close> in JavaScript: \<open>jsIndex\<close> returns
  \<open>None\<close> there, and each caller writes out what the source does with it.
\<close>

datatype ScrambleMode = Straight | Champagne

text \<open>The exceptions the modelled code can raise.\<close>

datatype error = TypeError | RangeError

record PlayerScore =
  name :: string
  handicap :: int
  holeScores :: "int list"

record TeamData =
  teamName :: string
  players :: "PlayerScore list"
  holeCount :: int
  scrambleMode :: ScrambleMode

text \<open>
  \<open>breakTie\<close> takes any two objects with a \<open>grossTotal\<close> and a \<open>teamHandicap\<close>; the
  scoring result and the ranking input both have these two fields and the optional
  \<open>netScore\<close> and \<open>pointsTotal\<close>. The records below extend one another accordingly.
\<close>

record TieBreakFields =
  grossTotal :: int
  teamHandicap :: int

record TeamScore = TieBreakFields +
  netScore :: "int option"
  pointsTotal :: "int option"

record ScoringResult = TeamScore +
  breakdown :: "string option"

record TeamForRanking = TeamScore +
  team_id :: int
  mode :: ScrambleMode

record Ranking =
  rank_id :: int
  rank :: int

definition jsIndex :: "'a list \<Rightarrow> int \<Rightarrow> 'a option" where
  "jsIndex xs i = (if 0 \<le> i \<and> i < int (length xs) then Some (xs ! nat i) else None)"

definition STROKE_INDEX_18 :: "int list" where
  "STROKE_INDEX_18 = [10, 4, 14, 2, 16, 8, 12, 6, 18, 11, 1, 15, 7, 17, 5, 13, 3, 9]"

subsection \<open>Printing integers (template literals)\<close>

definition digitChar :: "nat \<Rightarrow> char" where
  "digitChar d = char_of (48 + d)"

function showNat :: "nat \<Rightarrow> string" where
  "showNat n = (if n < 10 then [digitChar n] else showNat (n div 10) @ [digitChar (n mod 10)])"
  by pat_completeness auto
termination
  by (relation "measure (\<lambda>n. n)") auto

declare showNat.simps [simp del]

definition showInt :: "int \<Rightarrow> string" where
  "showInt i = (if i < 0 then CHR ''-'' # showNat (nat (- i)) else showNat (nat i))"

fun join :: "string \<Rightarrow> string list \<Rightarrow> string" where
  "join sep [] = []"
| "join sep [x] = x"
| "join sep (x # y # ys) = x @ sep @ join sep (y # ys)"

subsection \<open>Team handicap and gross total\<close>

definition calculateTeamHandicap :: "int list \<Rightarrow> int" where
  "calculateTeamHandicap playerHandicaps =
     (let sum = foldl (\<lambda>acc h. acc + h) 0 playerHandicaps in (sum + 5) div 10)"

definition calculateGrossTotal :: "int list \<Rightarrow> int" where
  "calculateGrossTotal scores = foldl (\<lambda>acc score. acc + score) 0 scores"

text \<open>\<open>teamData.players[0].holeScores\<close> throws a TypeError on an empty player list.\<close>

definition calculateStraightScramble :: "TeamData \<Rightarrow> error + ScoringResult" where
  "calculateStraightScramble teamData =
     (let playerHandicaps = map handicap (players teamData);
          teamHcp = calculateTeamHandicap playerHandicaps
      in case players teamData of
           [] \<Rightarrow> Inl TypeError
         | first # _ \<Rightarrow>
             (let gross = calculateGrossTotal (holeScores first);
                  net = gross - teamHcp
              in Inr \<lparr>grossTotal = gross, teamHandicap = teamHcp,
                       netScore = Some net, pointsTotal = None,
                       breakdown = Some (''Gross: '' @ showInt gross @ '', Team HCP: ''
                                          @ showInt teamHcp @ '', Net: '' @ showInt net)\<rparr>))"

subsection \<open>Stroke allocation and Stableford points\<close>

definition getStrokeIndex :: "int \<Rightarrow> int \<Rightarrow> int option" where
  "getStrokeIndex holeNumber totalHoles =
     (if totalHoles = 18 then jsIndex STROKE_INDEX_18 (holeNumber - 1)
      else if totalHoles = 0 then None
      else (let scaledIndex = ((holeNumber - 1) * 18) div totalHoles
            in jsIndex STROKE_INDEX_18 scaledIndex))"

text \<open>
  With an undefined stroke index both comparisons of the source are false and the
  function returns 0.
\<close>

definition getHoleHandicapStrokes :: "int \<Rightarrow> int \<Rightarrow> int \<Rightarrow> int" where
  "getHoleHandicapStrokes playerHandicap holeNumber totalHoles =
     (case getStrokeIndex holeNumber totalHoles of
        None \<Rightarrow> 0
      | Some strokeIndex \<Rightarrow>
          if playerHandicap \<ge> strokeIndex then 1
          else if playerHandicap \<ge> strokeIndex + 18 then 2
          else 0)"

definition netScoreToStableford :: "int \<Rightarrow> int \<Rightarrow> int" where
  "netScoreToStableford net par =
     (let scoreToPar = net - par in
      if scoreToPar \<ge> 2 then 0
      else if scoreToPar = 1 then 1
      else if scoreToPar = 0 then 2
      else if scoreToPar = -1 then 3
      else if scoreToPar = -2 then 4
      else if scoreToPar = -3 then 5
      else if scoreToPar = -4 then 6
      else 0)"

text \<open>
  The body of the inner loop of \<open>calculateChampagneScramble\<close>: one player's points on
  one hole. A missing gross score is \<^verbatim>\<open>undefined\<close>, the net score is then NaN, every
  comparison of \<open>netScoreToStableford\<close> is false and the points are 0. The call passes
  no par, so the default par 4 applies.
\<close>

definition playerHolePoints :: "PlayerScore \<Rightarrow> int \<Rightarrow> int \<Rightarrow> int" where
  "playerHolePoints player holeNum holes =
     (let grossScore = jsIndex (holeScores player) (holeNum - 1);
          handicapStrokes = getHoleHandicapStrokes (handicap player) holeNum holes
      in case grossScore of
           None \<Rightarrow> 0
         | Some g \<Rightarrow> netScoreToStableford (g - handicapStrokes) 4)"

text \<open>The loop over the players of one hole, with the running \<open>bestPoints\<close>.\<close>

fun playerLoop :: "PlayerScore list \<Rightarrow> int \<Rightarrow> int \<Rightarrow> int \<Rightarrow> int" where
  "playerLoop [] holeNum holes bestPoints = bestPoints"
| "playerLoop (player # rest) holeNum holes bestPoints =
     (let points = playerHolePoints player holeNum holes
      in playerLoop rest holeNum holes (if points > bestPoints then points else bestPoints))"

text \<open>
  The loop over the holes, \<open>holeNum\<close> running from its start value up to \<open>holeCount\<close>,
  with the running total and the breakdown entries.
\<close>

function holeLoop :: "PlayerScore list \<Rightarrow> int \<Rightarrow> int \<Rightarrow> int \<Rightarrow> string list \<Rightarrow> int \<times> string list" where
  "holeLoop ps holes holeNum teamPointsTotal holeBreakdown =
     (if holeNum \<le> holes then
        (let bestPoints = playerLoop ps holeNum holes 0
         in holeLoop ps holes (holeNum + 1) (teamPointsTotal + bestPoints)
              (holeBreakdown @ [''H'' @ showInt holeNum @ '': '' @ showInt bestPoints @ ''pts'']))
      else (teamPointsTotal, holeBreakdown))"
  by pat_completeness auto
termination
  by (relation "measure (\<lambda>(ps, holes, holeNum, t, b). nat (holes + 1 - holeNum))") auto

declare holeLoop.simps [simp del]

definition calculateChampagneScramble :: "TeamData \<Rightarrow> error + ScoringResult" where
  "calculateChampagneScramble teamData =
     (let playerHandicaps = map handicap (players teamData);
          teamHcp = calculateTeamHandicap playerHandicaps
      in case players teamData of
           [] \<Rightarrow> Inl TypeError
         | first # _ \<Rightarrow>
             (let gross = calculateGrossTotal (holeScores first);
                  (teamPointsTotal, holeBreakdown) =
                     holeLoop (players teamData) (holeCount teamData) 1 0 []
              in Inr \<lparr>grossTotal = gross, teamHandicap = teamHcp,
                       netScore = None, pointsTotal = Some teamPointsTotal,
                       breakdown = Some (''Total Points: '' @ showInt teamPointsTotal @ '' (''
                                          @ join '', '' holeBreakdown @ '')'')\<rparr>))"

definition calculateTeamScore :: "TeamData \<Rightarrow> error + ScoringResult" where
  "calculateTeamScore teamData =
     (if scrambleMode teamData = Straight then calculateStraightScramble teamData
      else calculateChampagneScramble teamData)"

subsection \<open>Tie-break and ranking\<close>

definition breakTie :: "'a TieBreakFields_scheme \<Rightarrow> 'b TieBreakFields_scheme \<Rightarrow> int" where
  "breakTie team1 team2 =
     (if grossTotal team1 \<noteq> grossTotal team2 then
        (if grossTotal team1 < grossTotal team2 then -1 else 1)
      else if teamHandicap team1 \<noteq> teamHandicap team2 then
        (if teamHandicap team1 < teamHandicap team2 then -1 else 1)
      else 0)"

text \<open>
  \<open>Array.prototype.sort\<close> with a comparator is a stable sort: an element stays in front
  of every later element that the comparator does not put strictly before it. Where the
  comparator is a consistent ordering of the elements this fixes the result, and the
  stable insertion sort below computes it. Where it is not, the language leaves the
  order to the engine, and the insertion sort is one such order. The comparators of
  \<open>rankTeams\<close> are consistent on every list whose teams carry the score of their
  format; the ranking properties are stated for those lists.
\<close>

fun insertBy :: "('a \<Rightarrow> 'a \<Rightarrow> int) \<Rightarrow> 'a \<Rightarrow> 'a list \<Rightarrow> 'a list" where
  "insertBy cmp x [] = [x]"
| "insertBy cmp x (y # ys) = (if cmp x y \<le> 0 then x # y # ys else y # insertBy cmp x ys)"

definition sortBy :: "('a \<Rightarrow> 'a \<Rightarrow> int) \<Rightarrow> 'a list \<Rightarrow> 'a list" where
  "sortBy cmp xs = foldr (insertBy cmp) xs []"

text \<open>\<open>x || 0\<close> on an optional number: 0 for \<^verbatim>\<open>undefined\<close> (and for 0 itself).\<close>

definition orZero :: "int option \<Rightarrow> int" where
  "orZero v = (case v of None \<Rightarrow> 0 | Some n \<Rightarrow> n)"

definition compareStraight :: "TeamForRanking \<Rightarrow> TeamForRanking \<Rightarrow> int" where
  "compareStraight a b =
     (if netScore a \<noteq> netScore b then orZero (netScore a) - orZero (netScore b)
      else breakTie a b)"

definition compareChampagne :: "TeamForRanking \<Rightarrow> TeamForRanking \<Rightarrow> int" where
  "compareChampagne a b =
     (if pointsTotal a \<noteq> pointsTotal b then orZero (pointsTotal b) - orZero (pointsTotal a)
      else breakTie a b)"

text \<open>\<open>forEach((team, index) => rankings.push({id, rank: index + 1}))\<close>, from \<open>index\<close> on.\<close>

fun pushRanks :: "TeamForRanking list \<Rightarrow> nat \<Rightarrow> Ranking list" where
  "pushRanks [] index = []"
| "pushRanks (team # rest) index =
     \<lparr>rank_id = team_id team, rank = int index + 1\<rparr> # pushRanks rest (Suc index)"

definition rankTeams :: "TeamForRanking list \<Rightarrow> Ranking list" where
  "rankTeams teams =
     (let straightTeams = filter (\<lambda>t. mode t = Straight) teams;
          champagneTeams = filter (\<lambda>t. mode t = Champagne) teams;
          straightSorted = sortBy compareStraight straightTeams;
          champagneSorted = sortBy compareChampagne champagneTeams
      in pushRanks straightSorted 0 @ pushRanks champagneSorted 0)"

section \<open>Scorecard interpreter: strings and patterns\<close>

text \<open>
  Text. A JavaScript string is modelled as a \<^typ>\<open>string\<close> of ASCII characters: upper
  and lower case, white space and the word characters of \<open>\<bsol>w\<close> are the ASCII ones.
  (For text beyond ASCII, \<open>toUpperCase\<close>, \<open>trim\<close> and \<open>\<bsol>s\<close> know more characters than
  the model does; no property below depends on which characters those are.)
\<close>

definition isDigit :: "char \<Rightarrow> bool" where
  "isDigit c = (c \<in> set ''0123456789'')"

definition isUpper :: "char \<Rightarrow> bool" where
  "isUpper c = (c \<in> set ''ABCDEFGHIJKLMNOPQRSTUVWXYZ'')"

definition isLower :: "char \<Rightarrow> bool" where
  "isLower c = (c \<in> set ''abcdefghijklmnopqrstuvwxyz'')"

definition isAlpha :: "char \<Rightarrow> bool" where
  "isAlpha c = (isUpper c \<or> isLower c)"

definition isWordChar :: "char \<Rightarrow> bool" where
  "isWordChar c = (isAlpha c \<or> isDigit c \<or> c = CHR ''_'')"

definition isSpace :: "char \<Rightarrow> bool" where
  "isSpace c = (c \<in> set [CHR '' '', CHR 0x09, CHR 0x0A, CHR 0x0B, CHR 0x0C, CHR 0x0D])"

definition toUpperChar :: "char \<Rightarrow> char" where
  "toUpperChar c =
     (case map_of (zip ''abcdefghijklmnopqrstuvwxyz'' ''ABCDEFGHIJKLMNOPQRSTUVWXYZ'') c of
        None \<Rightarrow> c | Some u \<Rightarrow> u)"

definition toUpperCase :: "string \<Rightarrow> string" where
  "toUpperCase s = map toUpperChar s"

definition trim :: "string \<Rightarrow> string" where
  "trim s = rev (dropWhile isSpace (rev (dropWhile isSpace s)))"

text \<open>\<open>s.split(sep)\<close> for a one-character separator; the empty string gives one empty piece.\<close>

fun split :: "char \<Rightarrow> string \<Rightarrow> string list" where
  "split sep [] = [[]]"
| "split sep (c # cs) =
     (if c = sep then [] # split sep cs
      else (case split sep cs of [] \<Rightarrow> [[c]] | w # ws \<Rightarrow> (c # w) # ws))"

text \<open>
  \<open>parseInt(s, 10)\<close>: leading white space, an optional sign, then the longest run of
  digits; \<open>None\<close> is NaN (no digit there).
\<close>

definition digitValue :: "char \<Rightarrow> int" where
  "digitValue c = (case map_of (zip ''0123456789'' [0, 1, 2, 3, 4, 5, 6, 7, 8, 9]) c of
                     None \<Rightarrow> 0 | Some d \<Rightarrow> d)"

definition parseInt :: "string \<Rightarrow> int option" where
  "parseInt s =
     (let s1 = dropWhile isSpace s;
          sign = (case s1 of [] \<Rightarrow> 1 | c # _ \<Rightarrow> if c = CHR ''-'' then - 1 else (1::int));
          s2 = (case s1 of [] \<Rightarrow> [] | c # cs \<Rightarrow> if c = CHR ''-'' \<or> c = CHR ''+'' then cs else s1);
          ds = takeWhile isDigit s2
      in if ds = [] then None
         else Some (sign * foldl (\<lambda>acc d. 10 * acc + digitValue d) 0 ds))"

text \<open>\<open>xs[i] || ""\<close> on an array of strings.\<close>

definition lineOrEmpty :: "string list \<Rightarrow> int \<Rightarrow> string" where
  "lineOrEmpty xs i = (case jsIndex xs i of None \<Rightarrow> [] | Some l \<Rightarrow> l)"

fun firstSome :: "('a \<Rightarrow> 'b option) \<Rightarrow> 'a list \<Rightarrow> 'b option" where
  "firstSome f [] = None"
| "firstSome f (x # xs) = (case f x of None \<Rightarrow> firstSome f xs | Some v \<Rightarrow> Some v)"

text \<open>\<open>Math.max(...xs)\<close>; \<open>None\<close> is the \<open>-Infinity\<close> of an empty list.\<close>

definition maxOf :: "int list \<Rightarrow> int option" where
  "maxOf xs = (case xs of [] \<Rightarrow> None | a # as \<Rightarrow> Some (fold max as a))"

subsection \<open>Regular expressions\<close>

text \<open>
  The patterns of the source are kept as data and run by one backtracking matcher.
  \<open>rxm r (prev, rest, caps)\<close> lists, in the order a backtracking engine tries them, the
  states in which \<open>r\<close> can end when started in front of \<open>rest\<close>, \<open>prev\<close> being the
  character just before (for \<open>\<bsol>b\<close> and \<open>^\<close>) and \<open>caps\<close> the capture groups set so far.
  The first state of the list for a whole pattern is the match JavaScript reports.
  \<open>Star\<close> is the greedy \<open>*\<close>; as in JavaScript an iteration that consumes nothing is not
  repeated.
\<close>

datatype rx =
    Eps
  | Cls "char \<Rightarrow> bool"
  | Seq rx rx
  | Alt rx rx
  | Star rx
  | WordB
  | Bol
  | Eol
  | Grp nat rx

type_synonym captures = "(nat \<times> string) list"

type_synonym mstate = "char option \<times> string \<times> captures"

definition isWordOpt :: "char option \<Rightarrow> bool" where
  "isWordOpt c = (case c of None \<Rightarrow> False | Some x \<Rightarrow> isWordChar x)"

definition headOpt :: "string \<Rightarrow> char option" where
  "headOpt s = (case s of [] \<Rightarrow> None | c # _ \<Rightarrow> Some c)"

function rxm :: "rx \<Rightarrow> mstate \<Rightarrow> mstate list" where
  "rxm Eps s = [s]"
| "rxm (Cls P) (prev, rest, caps) =
     (case rest of [] \<Rightarrow> [] | c # cs \<Rightarrow> if P c then [(Some c, cs, caps)] else [])"
| "rxm (Seq a b) s = concat (map (rxm b) (rxm a s))"
| "rxm (Alt a b) s = rxm a s @ rxm b s"
| "rxm (Star a) s =
     concat (map (\<lambda>s'. if length (fst (snd s')) < length (fst (snd s)) then rxm (Star a) s' else [])
                 (rxm a s)) @ [s]"
| "rxm WordB (prev, rest, caps) =
     (if isWordOpt prev \<noteq> isWordOpt (headOpt rest) then [(prev, rest, caps)] else [])"
| "rxm Bol (prev, rest, caps) = (if prev = None then [(prev, rest, caps)] else [])"
| "rxm Eol (prev, rest, caps) = (if rest = [] then [(prev, rest, caps)] else [])"
| "rxm (Grp n a) (prev, rest, caps) =
     map (\<lambda>(prev', rest', caps'). (prev', rest', (n, take (length rest - length rest') rest) # caps'))
         (rxm a (prev, rest, caps))"
  by pat_completeness auto
termination
  by (relation "measures [\<lambda>(r, s). size r, \<lambda>(r, s). length (fst (snd s))]") auto

text \<open>Pattern syntax: literals (exact and under the \<open>i\<close> flag), \<open>?\<close>, \<open>+\<close>, sequences, alternatives.\<close>

definition seqs :: "rx list \<Rightarrow> rx" where
  "seqs rs = foldr Seq rs Eps"

definition alts :: "rx list \<Rightarrow> rx" where
  "alts rs = foldr Alt rs (Cls (\<lambda>c. False))"

definition lit :: "string \<Rightarrow> rx" where
  "lit s = seqs (map (\<lambda>c. Cls (\<lambda>x. x = c)) s)"

definition litI :: "string \<Rightarrow> rx" where
  "litI s = seqs (map (\<lambda>c. Cls (\<lambda>x. toUpperChar x = toUpperChar c)) s)"

definition Opt :: "rx \<Rightarrow> rx" where
  "Opt r = Alt r Eps"

definition Plus :: "rx \<Rightarrow> rx" where
  "Plus r = Seq r (Star r)"

text \<open>\<open>[0-9]{1,2}\<close>, also written \<open>\<bsol>d{1,2}\<close>.\<close>

definition digits12 :: rx where
  "digits12 = Seq (Cls isDigit) (Opt (Cls isDigit))"

text \<open>
  A match: the index where it starts, the matched text and the capture groups.
  \<open>rxExec\<close> is \<open>str.match(re)\<close> without the \<open>g\<close> flag (\<open>None\<close> for \<open>null\<close>), \<open>rxTest\<close>
  is \<open>re.test(str)\<close>, \<open>group m n\<close> is \<open>m[n]\<close> (\<open>None\<close> for \<open>undefined\<close>).
\<close>

type_synonym rxmatch = "nat \<times> string \<times> captures"

fun rxSearch :: "rx \<Rightarrow> char option \<Rightarrow> string \<Rightarrow> nat \<Rightarrow> rxmatch option" where
  "rxSearch r prev [] i =
     (case rxm r (prev, [], []) of
        [] \<Rightarrow> None
      | (p, rest', caps) # _ \<Rightarrow> Some (i, [], caps))"
| "rxSearch r prev (c # cs) i =
     (case rxm r (prev, c # cs, []) of
        [] \<Rightarrow> rxSearch r (Some c) cs (Suc i)
      | (p, rest', caps) # _ \<Rightarrow> Some (i, take (length (c # cs) - length rest') (c # cs), caps))"

definition rxExec :: "rx \<Rightarrow> string \<Rightarrow> rxmatch option" where
  "rxExec r s = rxSearch r None s 0"

definition rxTest :: "rx \<Rightarrow> string \<Rightarrow> bool" where
  "rxTest r s = (rxExec r s \<noteq> None)"

definition matchIndex :: "rxmatch \<Rightarrow> nat" where
  "matchIndex m = fst m"

definition group :: "rxmatch \<Rightarrow> nat \<Rightarrow> string option" where
  "group m n = map_of (snd (snd m)) n"

text \<open>
  The \<open>g\<close> flag: \<open>str.match(re)\<close> lists the matched texts from left to right (the empty
  list standing for \<open>null\<close>), \<open>str.replace(re, rep)\<close> replaces each of them. After a
  match the scan goes on behind it; after an empty match one character further.
\<close>

function rxMatchAll :: "rx \<Rightarrow> char option \<Rightarrow> string \<Rightarrow> string list" where
  "rxMatchAll r prev rest =
     (case rxm r (prev, rest, []) of
        [] \<Rightarrow> (case rest of [] \<Rightarrow> [] | c # cs \<Rightarrow> rxMatchAll r (Some c) cs)
      | (p, rest', caps) # _ \<Rightarrow>
          if length rest' < length rest
          then take (length rest - length rest') rest # rxMatchAll r p rest'
          else [] # (case rest of [] \<Rightarrow> [] | c # cs \<Rightarrow> rxMatchAll r (Some c) cs))"
  by pat_completeness auto
termination
  by (relation "measure (\<lambda>(r, prev, rest). length rest)") auto

function rxReplaceAll :: "rx \<Rightarrow> string \<Rightarrow> char option \<Rightarrow> string \<Rightarrow> string" where
  "rxReplaceAll r rep prev rest =
     (case rxm r (prev, rest, []) of
        [] \<Rightarrow> (case rest of [] \<Rightarrow> [] | c # cs \<Rightarrow> c # rxReplaceAll r rep (Some c) cs)
      | (p, rest', caps) # _ \<Rightarrow>
          if length rest' < length rest
          then rep @ rxReplaceAll r rep p rest'
          else rep @ (case rest of [] \<Rightarrow> [] | c # cs \<Rightarrow> c # rxReplaceAll r rep (Some c) cs))"
  by pat_completeness auto
termination
  by (relation "measure (\<lambda>(r, rep, prev, rest). length rest)") auto

definition matchAll :: "rx \<Rightarrow> string \<Rightarrow> string list" where
  "matchAll r s = rxMatchAll r None s"

definition replaceAll :: "rx \<Rightarrow> string \<Rightarrow> string \<Rightarrow> string" where
  "replaceAll r rep s = rxReplaceAll r rep None s"

declare rxMatchAll.simps [simp del]

declare rxReplaceAll.simps [simp del]

section \<open>Scorecard interpreter, line-based (src/lib/ocr.ts)\<close>

text \<open>
  \<open>Date.now()\<close> is the one input of the interpreter besides its payload; it is the
  parameter \<open>now\<close> (milliseconds, a natural number). The confidence is a JavaScript
  double; it is modelled as the exact rational the source's decimal literals denote
  (the double sum \<open>0.4 + 0.2\<close> differs from \<open>0.6\<close> in the last bit only).
\<close>

record OCRResult =
  playerNames :: "string list"
  playerHandicaps :: "int list"
  ocrHoleScores :: "int list list"
  detectedHoleCount :: int
  ocrTeamName :: "string option"
  confidence :: rat

definition counties :: "string list" where
  "counties =
     [''ANTRIM'', ''ARMAGH'', ''CARLOW'', ''CAVAN'', ''CLARE'', ''CORK'', ''DERRY'', ''DONEGAL'',
      ''DOWN'', ''DUBLIN'', ''FERMANAGH'', ''GALWAY'', ''KERRY'', ''KILDARE'', ''KILKENNY'',
      ''LAOIS'', ''LEITRIM'', ''LIMERICK'', ''LONGFORD'', ''LOUTH'', ''MAYO'', ''MEATH'',
      ''MONAGHAN'', ''OFFALY'', ''ROSCOMMON'', ''SLIGO'', ''TIPPERARY'', ''TYRONE'',
      ''WATERFORD'', ''WESTMEATH'', ''WEXFORD'', ''WICKLOW'']"

definition generateTeamName :: "nat \<Rightarrow> string" where
  "generateTeamName now = (let index = now mod length counties in counties ! index)"

text \<open>\<open>text.replace(/\<bsol>r/g, "")\<close>, split at newlines, trim, drop the empty lines.\<close>

definition textLines :: "string \<Rightarrow> string list" where
  "textLines text =
     (let cleaned = filter (\<lambda>c. c \<noteq> CHR 0x0D) text
      in filter (\<lambda>l. length l > 0) (map trim (split (CHR 0x0A) cleaned)))"

subsection \<open>The patterns of ocr.ts\<close>

definition rxNumber :: rx where \<comment> \<open>\<open>/\<bsol>b\<bsol>d{1,2}\<bsol>b/g\<close>\<close>
  "rxNumber = seqs [WordB, digits12, WordB]"

definition layoutKeywords :: "string list" where
  "layoutKeywords = [''hole'', ''yards'', ''yard's'', ''par'', ''index'', ''blue'',
                     ''white'', ''green'', ''pts'', ''points'', ''ladies'']"

definition layoutRegex :: rx where \<comment> \<open>the keywords, each between \<open>\<bsol>b\<close>, joined by \<open>|\<close>, flag \<open>i\<close>\<close>
  "layoutRegex = alts (map (\<lambda>w. seqs [WordB, litI w, WordB]) layoutKeywords)"

definition rxWord :: "string \<Rightarrow> rx" where \<comment> \<open>\<open>/\<bsol>bWORD\<bsol>b/i\<close>\<close>
  "rxWord w = seqs [WordB, litI w, WordB]"

definition rxPoints :: rx where \<comment> \<open>\<open>/\<bsol>bPoints?\<bsol>b/i\<close>\<close>
  "rxPoints = seqs [WordB, litI ''Point'', Opt (litI ''s''), WordB]"

definition rxAnchorWords :: rx where \<comment> \<open>\<open>/\<bsol>b(NAME|HCAP|Hcap|CAP|Cap|HEAP|Heap)\<bsol>b/gi\<close>\<close>
  "rxAnchorWords =
     seqs [WordB,
           Grp 1 (alts (map litI [''NAME'', ''HCAP'', ''Hcap'', ''CAP'', ''Cap'', ''HEAP'', ''Heap''])),
           WordB]"

definition rxTrailingJunk :: rx where \<comment> \<open>\<open>/[^A-Za-z.'\<bsol>s]+$/g\<close>\<close>
  "rxTrailingJunk =
     seqs [Plus (Cls (\<lambda>c. \<not> (isAlpha c \<or> c = CHR ''.'' \<or> c = CHR 0x27 \<or> isSpace c))), Eol]"

definition rxSpaces :: rx where \<comment> \<open>\<open>/\<bsol>s+/g\<close>\<close>
  "rxSpaces = Plus (Cls isSpace)"

definition colonOrSpace :: rx where \<comment> \<open>\<open>[:\<bsol>s]*\<close>\<close>
  "colonOrSpace = Star (Cls (\<lambda>c. c = CHR '':'' \<or> isSpace c))"

definition rxHcapNumber :: rx where \<comment> \<open>\<open>/\<bsol>bHcap\<bsol>b[:\<bsol>s]*([0-9]{1,2})/i\<close>\<close>
  "rxHcapNumber = seqs [WordB, litI ''Hcap'', WordB, colonOrSpace, Grp 1 digits12]"

definition rxNumberHcap :: rx where \<comment> \<open>\<open>/([0-9]{1,2})\<bsol>s*\<bsol>bHcap\<bsol>b/i\<close>\<close>
  "rxNumberHcap = seqs [Grp 1 digits12, Star (Cls isSpace), WordB, litI ''Hcap'', WordB]"

definition rxCapNumber :: rx where \<comment> \<open>\<open>/\<bsol>b[cC]ap\<bsol>b[:\<bsol>s]*([0-9]{1,2})/\<close>\<close>
  "rxCapNumber =
     seqs [WordB, Cls (\<lambda>c. c = CHR ''c'' \<or> c = CHR ''C''), lit ''ap'', WordB, colonOrSpace,
           Grp 1 digits12]"

definition rxCapWord :: rx where \<comment> \<open>\<open>/\<bsol>b[cC]ap\<bsol>b/i\<close>\<close>
  "rxCapWord = seqs [WordB, litI ''cap'', WordB]"

definition rxLoneNumber :: rx where \<comment> \<open>\<open>/\<bsol>b([0-9]{1,2})\<bsol>b/\<close>\<close>
  "rxLoneNumber = seqs [WordB, Grp 1 digits12, WordB]"

definition rxNumberName :: rx where \<comment> \<open>\<open>/\<bsol>b([0-9]{1,2})\<bsol>s+Name\<bsol>b/i\<close>\<close>
  "rxNumberName = seqs [WordB, Grp 1 digits12, Plus (Cls isSpace), litI ''Name'', WordB]"

definition rxInlineName :: rx where \<comment> \<open>\<open>/^(?:(\<bsol>d{1,2})\<bsol>s+)?Name\<bsol>b\<bsol>s*(.*)$/i\<close>\<close>
  "rxInlineName =
     seqs [Bol, Opt (seqs [Grp 1 digits12, Plus (Cls isSpace)]), litI ''Name'', WordB,
           Star (Cls isSpace), Grp 2 (Star (Cls (\<lambda>c. c \<noteq> CHR 0x0A \<and> c \<noteq> CHR 0x0D))), Eol]"

definition rxSingleChar :: rx where \<comment> \<open>\<open>/^[A-Z0-9]$/\<close>\<close>
  "rxSingleChar = seqs [Bol, Cls (\<lambda>c. isUpper c \<or> isDigit c), Eol]"

definition rxPureCap :: rx where \<comment> \<open>\<open>/^(Hcap|Heap|Cap|cap)$/i\<close>\<close>
  "rxPureCap = seqs [Bol, Grp 1 (alts (map litI [''Hcap'', ''Heap'', ''Cap'', ''cap''])), Eol]"

subsection \<open>Hole count\<close>

definition canonicalCounts :: "int list" where
  "canonicalCounts = [9, 13, 16, 18]"

text \<open>The numbers of one line: the \<open>\<bsol>b\<bsol>d{1,2}\<bsol>b\<close> tokens, parsed, NaN dropped.\<close>

definition lineNumbers :: "string \<Rightarrow> int list" where
  "lineNumbers line = List.map_filter parseInt (matchAll rxNumber line)"

text \<open>The loop of \<open>inferHoleCount\<close>, with the running \<open>bestGuess\<close>.\<close>

fun inferLoop :: "int \<Rightarrow> string list \<Rightarrow> int" where
  "inferLoop bestGuess [] = bestGuess"
| "inferLoop bestGuess (line # rest) =
     (if length (matchAll rxNumber line) < 6 then inferLoop bestGuess rest
      else let intNums = lineNumbers line in
        if length intNums < 6 then inferLoop bestGuess rest
        else (case maxOf intNums of
                None \<Rightarrow> inferLoop bestGuess rest
              | Some mx \<Rightarrow>
                  if mx \<in> set canonicalCounts then mx
                  else if mx \<ge> 9 \<and> mx \<le> 18 then inferLoop mx rest
                  else inferLoop bestGuess rest))"

definition inferHoleCount :: "string list \<Rightarrow> int" where
  "inferHoleCount allLines = inferLoop 18 allLines"

text \<open>
  For stating properties: a line qualifies when it passes both length checks of the
  loop, \<open>lineMax\<close> is the maximum the loop then looks at, and a canonical line is a
  qualifying line whose maximum is one of the canonical counts.
\<close>

definition qualifies :: "string \<Rightarrow> bool" where
  "qualifies line = (length (matchAll rxNumber line) \<ge> 6 \<and> length (lineNumbers line) \<ge> 6)"

definition lineMax :: "string \<Rightarrow> int option" where
  "lineMax line = maxOf (lineNumbers line)"

definition canonicalLine :: "string \<Rightarrow> bool" where
  "canonicalLine line =
     (qualifies line \<and> (case lineMax line of None \<Rightarrow> False | Some m \<Rightarrow> m \<in> set canonicalCounts))"

subsection \<open>Names and handicaps\<close>

record ParsedPlayer =
  playerName :: string
  playerHandicap :: int
  lineIndex :: nat

definition cleanName :: "string \<Rightarrow> string" where
  "cleanName raw =
     (let out1 = (case rxExec layoutRegex raw of
                    None \<Rightarrow> raw
                  | Some m \<Rightarrow> take (matchIndex m) raw);
          out2 = replaceAll rxAnchorWords [] out1;
          out3 = replaceAll rxNumber [] out2;
          out4 = replaceAll rxTrailingJunk [] out3;
          out5 = trim (replaceAll rxSpaces '' '' out4);
          out6 = toUpperCase out5
      in if out6 = ''NAME'' then [] else out6)"

text \<open>\<open>if (m && m[1]) { const n = parseInt(m[1], 10); if (!isNaN(n)) return n; }\<close>\<close>

definition capturedNumber :: "rx \<Rightarrow> string \<Rightarrow> int option" where
  "capturedNumber r line =
     (case rxExec r line of
        None \<Rightarrow> None
      | Some m \<Rightarrow> (case group m 1 of
                     None \<Rightarrow> None
                   | Some g \<Rightarrow> if g = [] then None else parseInt g))"

definition handicapPass1 :: "string \<Rightarrow> int option" where
  "handicapPass1 line =
     (case capturedNumber rxHcapNumber line of
        Some n \<Rightarrow> Some n
      | None \<Rightarrow> (case capturedNumber rxNumberHcap line of
                    Some n \<Rightarrow> Some n
                  | None \<Rightarrow> capturedNumber rxCapNumber line))"

definition handicapPass2 :: "string list \<Rightarrow> nat \<Rightarrow> int option" where
  "handicapPass2 ls i =
     (if \<not> rxTest (rxWord ''Hcap'') (ls ! i) \<and> \<not> rxTest rxCapWord (ls ! i) then None
      else let prev = lineOrEmpty ls (int i - 1);
               next = lineOrEmpty ls (int i + 1)
           in case capturedNumber rxLoneNumber prev of
                Some n \<Rightarrow> Some n
              | None \<Rightarrow> capturedNumber rxLoneNumber next)"

definition findHandicapNearLine :: "string list \<Rightarrow> nat \<Rightarrow> int" where
  "findHandicapNearLine ls centerIndex =
     (let window = [centerIndex ..< min (length ls) (centerIndex + 9)]
      in case firstSome (\<lambda>i. handicapPass1 (ls ! i)) window of
           Some n \<Rightarrow> n
         | None \<Rightarrow>
            (case firstSome (handicapPass2 ls) window of
               Some n \<Rightarrow> n
             | None \<Rightarrow>
                (case firstSome (\<lambda>i. capturedNumber rxNumberName (ls ! i)) window of
                   Some n \<Rightarrow> n
                 | None \<Rightarrow> 0)))"

text \<open>
  The lines below a bare \<open>Name\<close> line that make up the name: the loop over
  \<open>lines[i+1 .. min(length, i+5) - 1]\<close> with its \<open>continue\<close> and \<open>break\<close>.
\<close>

fun collectNameParts :: "string list \<Rightarrow> string list" where
  "collectNameParts [] = []"
| "collectNameParts (nextLine # rest) =
     (if nextLine = [] then collectNameParts rest
      else if rxTest rxSingleChar nextLine then collectNameParts rest
      else if rxTest rxPureCap nextLine then collectNameParts rest
      else if rxTest layoutRegex nextLine then []
      else nextLine # collectNameParts rest)"

text \<open>One round of the loop over the line indices, \<open>players\<close> being the array built so far.\<close>

definition scanLine :: "string list \<Rightarrow> ParsedPlayer list \<Rightarrow> nat \<Rightarrow> ParsedPlayer list" where
  "scanLine ls found i =
     (let line = ls ! i in
      if \<not> rxTest (rxWord ''Name'') line then found
      else
        let inlineMatch = rxExec rxInlineName line;
            rawHandicap = (case inlineMatch of
                             None \<Rightarrow> None
                           | Some m \<Rightarrow> (case group m 1 of
                                          None \<Rightarrow> None
                                        | Some h \<Rightarrow> if h = [] then None else parseInt h));
            inlineParts = (case inlineMatch of
                             None \<Rightarrow> []
                           | Some m \<Rightarrow> (case group m 2 of
                                          None \<Rightarrow> []
                                        | Some n \<Rightarrow> if n = [] then [] else [n]));
            nameParts = (if inlineParts = [] then collectNameParts (take 4 (drop (i + 1) ls))
                         else inlineParts);
            rawName = cleanName (join '' '' nameParts)
        in if rawName = [] \<or> length rawName < 2 then found
           else if rawName \<in> set (map playerName found) then found
           else found @ [\<lparr>playerName = rawName,
                           playerHandicap = (case rawHandicap of
                                               Some h \<Rightarrow> h
                                             | None \<Rightarrow> findHandicapNearLine ls i),
                           lineIndex = i\<rparr>])"

definition findPlayers :: "string list \<Rightarrow> ParsedPlayer list" where
  "findPlayers ls = foldl (scanLine ls) [] [0 ..< length ls]"

subsection \<open>Scores\<close>

text \<open>The loop over the number tokens of one line (\<open>for (const token of nums)\<close>).\<close>

fun tokenLoop :: "string list \<Rightarrow> int \<Rightarrow> int list \<Rightarrow> int list" where
  "tokenLoop [] targetHoles scores = scores"
| "tokenLoop (token # rest) targetHoles scores =
     (case parseInt token of
        None \<Rightarrow> tokenLoop rest targetHoles scores
      | Some n \<Rightarrow>
          if n < 2 \<or> n > 12 then tokenLoop rest targetHoles scores
          else let scores' = scores @ [n] in
            if int (length scores') \<ge> targetHoles then scores'
            else tokenLoop rest targetHoles scores')"

definition skipLine :: "string \<Rightarrow> bool" where
  "skipLine line =
     (rxTest (rxWord ''Name'') line \<or> rxTest (rxWord ''Par'') line \<or>
      rxTest (rxWord ''Index'') line \<or> rxTest (rxWord ''Total'') line \<or>
      rxTest rxPoints line \<or> rxTest (rxWord ''Hcap'') line \<or> rxTest (rxWord ''Heap'') line)"

text \<open>
  The loop over the line indices \<open>startIndex + 1, ..., endIndex - 1\<close>, which stops once
  \<open>targetHoles\<close> scores are there. A line index past the end of the array makes
  \<open>line.match\<close> a call on \<^verbatim>\<open>undefined\<close>, a TypeError.
\<close>

fun scoreLoop :: "string list \<Rightarrow> nat list \<Rightarrow> int \<Rightarrow> int list \<Rightarrow> error + int list" where
  "scoreLoop allLines [] targetHoles scores = Inr scores"
| "scoreLoop allLines (i # rest) targetHoles scores =
     (if \<not> int (length scores) < targetHoles then Inr scores
      else case jsIndex allLines (int i) of
             None \<Rightarrow> Inl TypeError
           | Some line \<Rightarrow>
               if skipLine line then scoreLoop allLines rest targetHoles scores
               else scoreLoop allLines rest targetHoles
                      (tokenLoop (matchAll rxNumber line) targetHoles scores))"

text \<open>
  After the loop the scores are padded with 0 up to \<open>targetHoles\<close> and cut to
  \<open>targetHoles\<close>; \<open>scores.length = targetHoles\<close> with a negative \<open>targetHoles\<close> is a
  RangeError.
\<close>

definition extractScoresForPlayer :: "string list \<Rightarrow> nat \<Rightarrow> nat \<Rightarrow> int \<Rightarrow> error + int list" where
  "extractScoresForPlayer allLines startIndex endIndex targetHoles =
     (case scoreLoop allLines [startIndex + 1 ..< endIndex] targetHoles [] of
        Inl e \<Rightarrow> Inl e
      | Inr scores \<Rightarrow>
          (let padded = scores @ replicate (nat (targetHoles - int (length scores))) 0
           in if int (length padded) > targetHoles
              then (if targetHoles < 0 then Inl RangeError else Inr (take (nat targetHoles) padded))
              else Inr padded))"

text \<open>Results of a loop in order, up to the first exception.\<close>

fun collectResults :: "(error + 'a) list \<Rightarrow> error + 'a list" where
  "collectResults [] = Inr []"
| "collectResults (r # rs) =
     (case r of
        Inl e \<Rightarrow> Inl e
      | Inr v \<Rightarrow> (case collectResults rs of Inl e \<Rightarrow> Inl e | Inr vs \<Rightarrow> Inr (v # vs)))"

subsection \<open>The interpreter\<close>

definition hasRealScores :: "int list list \<Rightarrow> bool" where
  "hasRealScores rows = list_ex (\<lambda>row. list_ex (\<lambda>s. s > 0) row) rows"

text \<open>The body of \<open>players.forEach((player, idx) => ...)\<close>: the score row of player \<open>idx\<close>.\<close>

definition playerScoreRow :: "string list \<Rightarrow> ParsedPlayer list \<Rightarrow> int \<Rightarrow> nat \<Rightarrow> error + int list" where
  "playerScoreRow ls found holes idx =
     (let player = found ! idx;
          thisStart = lineIndex player;
          thisEnd = (if idx + 1 < length found then lineIndex (found ! (idx + 1)) else length ls)
      in extractScoresForPlayer ls thisStart thisEnd holes)"

text \<open>The confidence estimate of a non-empty result.\<close>

definition estimateConfidence :: "nat \<Rightarrow> int list list \<Rightarrow> rat" where
  "estimateConfidence playerCount scoreRows =
     (let hasAnyRealScores = hasRealScores scoreRows;
          base = (if playerCount \<ge> 3 then 5 / 10
                  else if playerCount = 2 then 45 / 100 else 4 / 10)
      in if hasAnyRealScores then base + 2 / 10 else base)"

definition parseScorecard :: "nat \<Rightarrow> string \<Rightarrow> error + OCRResult" where
  "parseScorecard now text =
     (let ls = textLines text;
          holes = inferHoleCount ls;
          found = findPlayers ls
      in if length found = 0 then
           Inr \<lparr>playerNames = [], playerHandicaps = [], ocrHoleScores = [],
                detectedHoleCount = 0, ocrTeamName = Some (generateTeamName now),
                confidence = 2 / 10\<rparr>
         else
           case collectResults (map (playerScoreRow ls found holes) [0 ..< length found]) of
             Inl e \<Rightarrow> Inl e
           | Inr scoreRows \<Rightarrow>
               Inr \<lparr>playerNames = map playerName found,
                    playerHandicaps = map playerHandicap found,
                    ocrHoleScores = scoreRows,
                    detectedHoleCount = holes,
                    ocrTeamName = Some (generateTeamName now),
                    confidence = estimateConfidence (length found) scoreRows\<rparr>)"

section \<open>Scorecard interpreter with bounding boxes (the second ocr module)\<close>

text \<open>
  The second interpreter module works on the annotations of the OCR provider when there
  are any, and falls back to a simplified text parser otherwise. Coordinates are
  integers. \<open>Math.min(...[])\<close> is \<open>Infinity\<close>: \<open>minOf\<close> returns \<open>None\<close> for it, and
  \<open>compareExt\<close>, \<open>withinTolerance\<close> write out what subtraction and comparison do with it.
\<close>

record Vertex =
  vx :: int
  vy :: int

record BoundingBox =
  vertices :: "Vertex list"

record TextAnnotation =
  description :: string
  boundingPoly :: BoundingBox

definition minOf :: "int list \<Rightarrow> int option" where
  "minOf xs = (case xs of [] \<Rightarrow> None | a # as \<Rightarrow> Some (fold min as a))"

definition annotationY :: "TextAnnotation \<Rightarrow> int option" where
  "annotationY a = minOf (map vy (vertices (boundingPoly a)))"

definition annotationX :: "TextAnnotation \<Rightarrow> int option" where
  "annotationX a = minOf (map vx (vertices (boundingPoly a)))"

text \<open>
  The comparator \<open>(a, b) => a - b\<close> on such values: \<open>Infinity - Infinity\<close> is NaN, which
  \<open>sort\<close> reads as 0.
\<close>

definition compareExt :: "int option \<Rightarrow> int option \<Rightarrow> int" where
  "compareExt a b =
     (case (a, b) of
        (Some p, Some q) \<Rightarrow> p - q
      | (None, None) \<Rightarrow> 0
      | (None, Some q) \<Rightarrow> 1
      | (Some p, None) \<Rightarrow> - 1)"

text \<open>\<open>Math.abs(y - lastY) <= tolerance\<close>: false as soon as one side is infinite.\<close>

definition withinTolerance :: "int option \<Rightarrow> int option \<Rightarrow> int \<Rightarrow> bool" where
  "withinTolerance y lastY tolerance =
     (case (y, lastY) of
        (Some p, Some q) \<Rightarrow> \<bar>p - q\<bar> \<le> tolerance
      | _ \<Rightarrow> False)"

subsection \<open>Rows\<close>

fun groupLoop :: "TextAnnotation list \<Rightarrow> int \<Rightarrow> TextAnnotation list list \<Rightarrow> TextAnnotation list
                    \<Rightarrow> int option \<Rightarrow> TextAnnotation list list \<times> TextAnnotation list" where
  "groupLoop [] tolerance rows currentRow lastY = (rows, currentRow)"
| "groupLoop (ann # rest) tolerance rows currentRow lastY =
     (let y = annotationY ann in
      if lastY = Some (- 1000) \<or> withinTolerance y lastY tolerance
      then groupLoop rest tolerance rows (currentRow @ [ann]) y
      else groupLoop rest tolerance
             (if length currentRow > 0 then rows @ [currentRow] else rows) [ann] y)"

definition groupByRows :: "TextAnnotation list \<Rightarrow> int \<Rightarrow> TextAnnotation list list" where
  "groupByRows annotations tolerance =
     (let sorted = sortBy (\<lambda>a b. compareExt (annotationY a) (annotationY b)) annotations;
          (rows, currentRow) = groupLoop sorted tolerance [] [] (Some (- 1000))
      in if length currentRow > 0 then rows @ [currentRow] else rows)"

subsection \<open>The patterns of the second module\<close>

definition rxHeader :: rx where \<comment> \<open>\<open>/\<bsol>b(hole|par|index|yard)/i\<close>\<close>
  "rxHeader = seqs [WordB, Grp 1 (alts (map litI [''hole'', ''par'', ''index'', ''yard'']))]"

definition rxTwoLetters :: rx where \<comment> \<open>\<open>/[A-Za-z]{2,}/\<close>\<close>
  "rxTwoLetters = seqs [Cls isAlpha, Cls isAlpha, Star (Cls isAlpha)]"

definition rxDigits :: rx where \<comment> \<open>\<open>/\<bsol>d+/\<close>\<close>
  "rxDigits = Plus (Cls isDigit)"

definition rxNameToken :: rx where \<comment> \<open>\<open>/^name$/i\<close>\<close>
  "rxNameToken = seqs [Bol, litI ''name'', Eol]"

definition rxAlphaToken :: rx where \<comment> \<open>\<open>/^[A-Za-z.'\<bsol>s]+$/\<close>\<close>
  "rxAlphaToken =
     seqs [Bol, Plus (Cls (\<lambda>c. isAlpha c \<or> c = CHR ''.'' \<or> c = CHR 0x27 \<or> isSpace c)), Eol]"

definition rxHcapToken :: rx where \<comment> \<open>\<open>/^(hcap|cap)$/i\<close>\<close>
  "rxHcapToken = seqs [Bol, Grp 1 (alts (map litI [''hcap'', ''cap''])), Eol]"

definition rxAnchorWords2 :: rx where \<comment> \<open>\<open>/\<bsol>b(name|hcap|cap|heap)\<bsol>b/gi\<close>\<close>
  "rxAnchorWords2 =
     seqs [WordB, Grp 1 (alts (map litI [''name'', ''hcap'', ''cap'', ''heap''])), WordB]"

definition rxNameLine :: rx where \<comment> \<open>\<open>/^[A-Za-z.\<bsol>s]{2,}$/\<close>\<close>
  "rxNameLine =
     (let c = Cls (\<lambda>c. isAlpha c \<or> c = CHR ''.'' \<or> isSpace c)
      in seqs [Bol, c, c, Star c, Eol])"

definition rxNumberCap :: rx where \<comment> \<open>\<open>/\<bsol>b(\<bsol>d{1,2})\<bsol>s*(hcap|cap)\<bsol>b/i\<close>\<close>
  "rxNumberCap =
     seqs [WordB, Grp 1 digits12, Star (Cls isSpace),
           Grp 2 (alts (map litI [''hcap'', ''cap''])), WordB]"

subsection \<open>Player rows\<close>

definition isPlayerRow :: "TextAnnotation list \<Rightarrow> bool" where
  "isPlayerRow row =
     (let text = join '' '' (map description row) in
      if rxTest rxHeader text then False
      else let hasLetters = rxTest rxTwoLetters text;
               hasNumbers = rxTest rxDigits text;
               hasNameMarker = rxTest (rxWord ''name'') text
           in hasLetters \<or> hasNameMarker)"

definition findPlayerRows :: "TextAnnotation list list \<Rightarrow> TextAnnotation list list" where
  "findPlayerRows rows = filter isPlayerRow rows"

record RowToken =
  tokenText :: string
  tokenX :: "int option"

record RowPlayer =
  rowName :: string
  rowHandicap :: int
  row :: "TextAnnotation list"

text \<open>\<open>xs.findIndex(p)\<close>: \<open>None\<close> for -1.\<close>

fun findIndex :: "('a \<Rightarrow> bool) \<Rightarrow> 'a list \<Rightarrow> nat option" where
  "findIndex p [] = None"
| "findIndex p (x # xs) =
     (if p x then Some 0 else (case findIndex p xs of None \<Rightarrow> None | Some k \<Rightarrow> Some (Suc k)))"

definition inRange :: "int \<Rightarrow> int \<Rightarrow> string \<Rightarrow> bool" where
  "inRange lo hi s = (case parseInt s of None \<Rightarrow> False | Some n \<Rightarrow> n \<ge> lo \<and> n \<le> hi)"

definition extractPlayer :: "TextAnnotation list \<Rightarrow> RowPlayer" where
  "extractPlayer r =
     (let tokens = sortBy (\<lambda>a b. compareExt (tokenX a) (tokenX b))
                     (map (\<lambda>a. \<lparr>tokenText = description a, tokenX = annotationX a\<rparr>) r);
          nameIdx = findIndex (\<lambda>t. rxTest rxNameToken (tokenText t)) tokens;
          name0 = (case nameIdx of
                     Some k \<Rightarrow>
                       join '' '' (take 3 (map tokenText
                         (filter (\<lambda>t. rxTest rxAlphaToken (tokenText t)) (drop (k + 1) tokens))))
                   | None \<Rightarrow>
                       join '' '' (take 3 (map tokenText
                         (filter (\<lambda>t. rxTest rxAlphaToken (tokenText t) \<and> length (tokenText t) > 1)
                            tokens))));
          hcapIdx = findIndex (\<lambda>t. rxTest rxHcapToken (tokenText t)) tokens;
          hcp = (case hcapIdx of
                   Some k \<Rightarrow>
                     if k + 1 < length tokens then
                       (case parseInt (tokenText (tokens ! (k + 1))) of
                          None \<Rightarrow> 0
                        | Some num \<Rightarrow> if num \<ge> 0 \<and> num \<le> 54 then num else 0)
                     else
                       (case find (\<lambda>t. inRange 0 36 (tokenText t)) tokens of
                          None \<Rightarrow> 0
                        | Some t \<Rightarrow> (case parseInt (tokenText t) of None \<Rightarrow> 0 | Some n \<Rightarrow> n))
                 | None \<Rightarrow>
                     (case find (\<lambda>t. inRange 0 36 (tokenText t)) tokens of
                        None \<Rightarrow> 0
                      | Some t \<Rightarrow> (case parseInt (tokenText t) of None \<Rightarrow> 0 | Some n \<Rightarrow> n)));
          name1 = toUpperCase (trim (replaceAll rxSpaces '' ''
                    (replaceAll rxDigits [] (replaceAll rxAnchorWords2 [] name0))))
      in \<lparr>rowName = (if name1 = [] then ''PLAYER'' else name1), rowHandicap = hcp, row = r\<rparr>)"

subsection \<open>Hole count and scores of a row\<close>

text \<open>The numbers of a row: each description parsed, NaN dropped, kept when in \<open>[lo, hi]\<close>.\<close>

definition rowNumbers :: "int \<Rightarrow> int \<Rightarrow> TextAnnotation list \<Rightarrow> int list" where
  "rowNumbers lo hi r =
     filter (\<lambda>n. n \<ge> lo \<and> n \<le> hi) (List.map_filter (\<lambda>a. parseInt (description a)) r)"

fun detectHoleCount :: "TextAnnotation list list \<Rightarrow> int" where
  "detectHoleCount [] = 18"
| "detectHoleCount (r # rest) =
     (let numbers = rowNumbers 1 18 r in
      if length numbers \<ge> 6 then
        (case maxOf numbers of
           None \<Rightarrow> detectHoleCount rest
         | Some mx \<Rightarrow>
             if mx \<in> set canonicalCounts then mx
             else if mx \<ge> 9 \<and> mx \<le> 18 then mx
             else detectHoleCount rest)
      else detectHoleCount rest)"

text \<open>For stating properties: the rows the loop looks at, and their maximum.\<close>

definition rowQualifies :: "TextAnnotation list \<Rightarrow> bool" where
  "rowQualifies r = (length (rowNumbers 1 18 r) \<ge> 6)"

definition rowMax :: "TextAnnotation list \<Rightarrow> int option" where
  "rowMax r = maxOf (rowNumbers 1 18 r)"

text \<open>\<open>xs.slice(0, e)\<close>: a negative \<open>e\<close> counts from the end.\<close>

definition sliceTo :: "'a list \<Rightarrow> int \<Rightarrow> 'a list" where
  "sliceTo xs e = (if e < 0 then take (nat (int (length xs) + e)) xs else take (nat e) xs)"

definition extractScoresFromRow :: "TextAnnotation list \<Rightarrow> int \<Rightarrow> int list" where
  "extractScoresFromRow r holes =
     (let scores = rowNumbers 2 12 r;
          padded = scores @ replicate (nat (holes - int (length scores))) 0
      in sliceTo padded holes)"

subsection \<open>The two parsers and the choice between them\<close>

definition parseScorecardWithBoundingBoxes :: "nat \<Rightarrow> TextAnnotation list \<Rightarrow> string \<Rightarrow> OCRResult" where
  "parseScorecardWithBoundingBoxes now annotations fullText =
     (let rowGroups = groupByRows annotations 20;
          playerRows = findPlayerRows rowGroups;
          found = map extractPlayer playerRows;
          holes = detectHoleCount rowGroups;
          scoreRows = map (\<lambda>player. extractScoresFromRow (row player) holes) found;
          names = map rowName found;
          handicaps = map rowHandicap found;
          hasReal = hasRealScores scoreRows;
          conf = (if length names \<ge> 3 \<and> hasReal then 8 / 10
                  else if length names \<ge> 2 then 6 / 10 else 4 / 10)
      in \<lparr>playerNames = names, playerHandicaps = handicaps, ocrHoleScores = scoreRows,
          detectedHoleCount = holes, ocrTeamName = Some (generateTeamName now),
          confidence = conf\<rparr>)"

text \<open>The fallback parser of the second module (also named \<open>parseScorecard\<close> in its file).\<close>

definition fallbackPlayer :: "string list \<Rightarrow> nat \<Rightarrow> (string \<times> int) option" where
  "fallbackPlayer ls i =
     (if \<not> rxTest (rxWord ''Name'') (ls ! i) then None
      else let nameParts = takeWhile (\<lambda>next. rxTest rxNameLine next) (take 3 (drop (i + 1) ls));
               joined = toUpperCase (join '' '' nameParts);
               nm = (if joined = [] then ''PLAYER'' else joined);
               hcp = (case firstSome (\<lambda>l. case rxExec rxNumberCap l of
                                            None \<Rightarrow> None
                                          | Some m \<Rightarrow> Some (case group m 1 of
                                                             None \<Rightarrow> None
                                                           | Some g \<Rightarrow> parseInt g))
                             (take 5 (drop i ls)) of
                        Some (Some h) \<Rightarrow> h
                      | _ \<Rightarrow> 0)
           in Some (nm, hcp))"

definition parseScorecard_fallback :: "nat \<Rightarrow> string \<Rightarrow> OCRResult" where
  "parseScorecard_fallback now text =
     (let ls = textLines text;
          found = List.map_filter (fallbackPlayer ls) [0 ..< length ls];
          holes = 18;
          scoreRows = map (\<lambda>p. replicate (nat holes) 0) found
      in \<lparr>playerNames = map fst found, playerHandicaps = map snd found,
          ocrHoleScores = scoreRows, detectedHoleCount = holes,
          ocrTeamName = Some (generateTeamName now),
          confidence = (if length found > 0 then 4 / 10 else 2 / 10)\<rparr>)"

text \<open>
  The end of \<open>extractScorecardData\<close>, once the payload has arrived: the bounding-box
  parser when there are annotations, the fallback parser on the text otherwise.
\<close>

definition interpretPayload :: "nat \<Rightarrow> TextAnnotation list \<Rightarrow> string \<Rightarrow> OCRResult" where
  "interpretPayload now annotations fullText =
     (if length annotations > 0 then parseScorecardWithBoundingBoxes now annotations fullText
      else parseScorecard_fallback now fullText)"

subsection \<open>Example data\<close>

text \<open>Concrete teams used where a property is evaluated on an input.\<close>

abbreviation scenarioPoints :: TeamData where
  "scenarioPoints \<equiv>
     \<lparr>teamName = ''KERRY'',
      players = [\<lparr>name = ''A'', handicap = 5, holeScores = [4, 4, 4, 4, 4, 4, 4, 4, 4, 4, 4, 4, 4, 4, 4, 5, 5, 5]\<rparr>,
                 \<lparr>name = ''B'', handicap = 15, holeScores = [5, 5, 5, 5, 5, 5, 5, 5, 5, 5, 5, 5, 5, 5, 5, 5, 5, 5]\<rparr>],
      holeCount = 18, scrambleMode = Champagne\<rparr>"

abbreviation scenarioStraight :: TeamData where
  "scenarioStraight \<equiv>
     \<lparr>teamName = ''CORK'',
      players = [\<lparr>name = ''A'', handicap = 8, holeScores = [4, 4, 4, 4, 4, 4, 4, 4, 4, 4, 4, 4, 4, 4, 4, 5, 5, 5]\<rparr>,
                 \<lparr>name = ''B'', handicap = 12, holeScores = []\<rparr>,
                 \<lparr>name = ''C'', handicap = 6, holeScores = []\<rparr>],
      holeCount = 18, scrambleMode = Straight\<rparr>"

abbreviation mixedTeams :: "TeamForRanking list" where
  "mixedTeams \<equiv>
     [\<lparr>grossTotal = 75, teamHandicap = 3, netScore = Some 72, pointsTotal = None, team_id = 1, mode = Straight\<rparr>,
      \<lparr>grossTotal = 75, teamHandicap = 3, netScore = None, pointsTotal = Some 30, team_id = 2, mode = Champagne\<rparr>,
      \<lparr>grossTotal = 74, teamHandicap = 2, netScore = Some 72, pointsTotal = None, team_id = 3, mode = Straight\<rparr>,
      \<lparr>grossTotal = 70, teamHandicap = 3, netScore = Some 67, pointsTotal = None, team_id = 4, mode = Straight\<rparr>,
      \<lparr>grossTotal = 75, teamHandicap = 3, netScore = None, pointsTotal = Some 36, team_id = 5, mode = Champagne\<rparr>]"

text \<open>
  Three straight teams, the second without a net score: the first and the third tie on
  net score 0, and the third has the lower gross total.
\<close>

abbreviation netZeroGross72 :: TeamForRanking where
  "netZeroGross72 \<equiv>
     \<lparr>grossTotal = 72, teamHandicap = 72, netScore = Some 0, pointsTotal = None, team_id = 1, mode = Straight\<rparr>"

abbreviation noNetScore :: TeamForRanking where
  "noNetScore \<equiv>
     \<lparr>grossTotal = 71, teamHandicap = 3, netScore = None, pointsTotal = None, team_id = 2, mode = Straight\<rparr>"

abbreviation netZeroGross70 :: TeamForRanking where
  "netZeroGross70 \<equiv>
     \<lparr>grossTotal = 70, teamHandicap = 70, netScore = Some 0, pointsTotal = None, team_id = 3, mode = Straight\<rparr>"

abbreviation mkRow :: "string list \<Rightarrow> TextAnnotation list" where
  "mkRow ds \<equiv> map (\<lambda>d. \<lparr>description = d, boundingPoly = \<lparr>vertices = []\<rparr>\<rparr>) ds"

abbreviation lineTo16 :: string where
  "lineTo16 \<equiv> ''1 2 3 4 5 6 7 8 9 10 11 12 13 14 15 16''"

abbreviation lineTo17 :: string where
  "lineTo17 \<equiv> ''1 2 3 4 5 6 7 8 9 10 11 12 13 14 15 16 17''"

abbreviation lineTo18 :: string where
  "lineTo18 \<equiv> ''1 2 3 4 5 6 7 8 9 10 11 12 13 14 15 16 17 18''"

abbreviation sampleCard :: string where
  "sampleCard \<equiv> ''Name J.DOE'' @ [CHR 0x0A] @ ''Hcap 12'' @ [CHR 0x0A] @ ''4 5 3''"

abbreviation headerOnly :: "TextAnnotation list" where
  "headerOnly \<equiv> [\<lparr>description = ''Hole'', boundingPoly = \<lparr>vertices = [\<lparr>vx = 10, vy = 10\<rparr>]\<rparr>\<rparr>]"

text \<open>
  A card with a hole row running to 9 and two players, the first with ten score tokens
  and the second with two; the same card as annotations, one row of boxes per line;
  and a card in the layout the fallback parser reads.
\<close>

abbreviation twoPlayerCard :: string where
  "twoPlayerCard \<equiv>
     ''1 2 3 4 5 6 7 8 9'' @ [CHR 0x0A] @ ''Name A.BELL'' @ [CHR 0x0A] @ ''Hcap 12'' @ [CHR 0x0A] @
     ''4 5 3 4 5 3 4 5 3 6'' @ [CHR 0x0A] @ ''Name C.DUFF'' @ [CHR 0x0A] @ ''Hcap 7'' @ [CHR 0x0A] @
     ''6 2''"

abbreviation boxRow :: "int \<Rightarrow> string list \<Rightarrow> TextAnnotation list" where
  "boxRow y ds \<equiv>
     map (\<lambda>(d, k). \<lparr>description = d, boundingPoly = \<lparr>vertices = [\<lparr>vx = 10 + 20 * int k, vy = y\<rparr>]\<rparr>\<rparr>)
       (zip ds [0 ..< length ds])"

abbreviation twoPlayerBoxes :: "TextAnnotation list" where
  "twoPlayerBoxes \<equiv>
     boxRow 10 [''1'', ''2'', ''3'', ''4'', ''6'', ''7'', ''8'', ''9''] @
     boxRow 50 [''ANN'', ''12'', ''4'', ''5'', ''3'', ''4'', ''5'', ''3'', ''4'', ''5'', ''3'', ''6''] @
     boxRow 100 [''CY'', ''7'', ''6'', ''2'']"

abbreviation fallbackCard :: string where
  "fallbackCard \<equiv>
     ''Name'' @ [CHR 0x0A] @ ''ANN BELL'' @ [CHR 0x0A] @ ''12 hcap'' @ [CHR 0x0A] @
     ''Name'' @ [CHR 0x0A] @ ''CY DUFF'' @ [CHR 0x0A] @ ''7 cap''"

section \<open>Properties of the scoring engine\<close>

subsection \<open>Sums, rounding and the best ball of a hole\<close>

lemma foldl_add_sum_list: "foldl (\<lambda>acc (h::int). acc + h) a xs = a + sum_list xs"
  by (induction xs arbitrary: a) simp_all

lemma calculateGrossTotal_sum: "calculateGrossTotal xs = sum_list xs"
  by (simp add: calculateGrossTotal_def foldl_add_sum_list)

lemma calculateTeamHandicap_round:
  "calculateTeamHandicap hs = round (real_of_int (sum_list hs) * 0.1)"
proof -
  have eq: "real_of_int (sum_list hs) * 0.1 + 1 / 2 = real_of_int (sum_list hs + 5) / real_of_int 10"
    by simp
  have "round (real_of_int (sum_list hs) * 0.1) = \<lfloor>real_of_int (sum_list hs + 5) / real_of_int 10\<rfloor>"
    by (simp only: round_def eq)
  also have "\<dots> = (sum_list hs + 5) div 10"
    by (rule floor_divide_of_int_eq)
  finally show ?thesis
    by (simp add: calculateTeamHandicap_def foldl_add_sum_list)
qed

lemma netScoreToStableford_range: "0 \<le> netScoreToStableford n p \<and> netScoreToStableford n p \<le> 6"
  by (simp add: netScoreToStableford_def Let_def)

lemma playerHolePoints_nonneg: "0 \<le> playerHolePoints p h hc"
  by (simp add: playerHolePoints_def Let_def netScoreToStableford_range split: option.splits)

lemma playerLoop_ge_start: "b \<le> playerLoop ps h hc b"
proof (induction ps arbitrary: b)
  case Nil
  show ?case by simp
next
  case (Cons p ps)
  have "b \<le> (if playerHolePoints p h hc > b then playerHolePoints p h hc else b)"
    by simp
  also have "\<dots> \<le> playerLoop ps h hc (if playerHolePoints p h hc > b then playerHolePoints p h hc else b)"
    by (rule Cons.IH)
  finally show ?case by (simp add: Let_def)
qed

lemma playerLoop_ge_player: "p \<in> set ps \<Longrightarrow> playerHolePoints p h hc \<le> playerLoop ps h hc b"
proof (induction ps arbitrary: b)
  case Nil
  then show ?case by simp
next
  case (Cons q ps)
  let ?b' = "if playerHolePoints q h hc > b then playerHolePoints q h hc else b"
  show ?case
  proof (cases "p = q")
    case True
    have "playerHolePoints q h hc \<le> ?b'" by simp
    also have "\<dots> \<le> playerLoop ps h hc ?b'" by (rule playerLoop_ge_start)
    finally show ?thesis using True by (simp add: Let_def)
  next
    case False
    with Cons.prems have "p \<in> set ps" by simp
    from Cons.IH [OF this] show ?thesis by (simp add: Let_def)
  qed
qed

lemma playerLoop_mem:
  "playerLoop ps h hc b \<in> insert b ((\<lambda>p. playerHolePoints p h hc) ` set ps)"
proof (induction ps arbitrary: b)
  case Nil
  show ?case by simp
next
  case (Cons q ps)
  from Cons.IH [of "if playerHolePoints q h hc > b then playerHolePoints q h hc else b"]
  show ?case by (auto simp: Let_def split: if_splits)
qed

lemma playerLoop_Max:
  assumes "ps \<noteq> []"
  shows "playerLoop ps h hc 0 = Max ((\<lambda>p. playerHolePoints p h hc) ` set ps)"
proof -
  let ?A = "(\<lambda>p. playerHolePoints p h hc) ` set ps"
  from assms obtain q where q: "q \<in> set ps" by (cases ps) auto
  have "playerLoop ps h hc 0 \<in> ?A"
  proof (cases "playerLoop ps h hc 0 = 0")
    case True
    have "playerHolePoints q h hc \<le> 0"
      using playerLoop_ge_player [OF q, of h hc 0] True by simp
    with playerHolePoints_nonneg [of q h hc] have "playerHolePoints q h hc = 0" by simp
    with q True show ?thesis by force
  next
    case False
    with playerLoop_mem [of ps h hc 0] show ?thesis by simp
  qed
  moreover have "\<And>y. y \<in> ?A \<Longrightarrow> y \<le> playerLoop ps h hc 0"
    by (auto intro: playerLoop_ge_player)
  ultimately show ?thesis
    by (intro Max_eqI [symmetric]) simp_all
qed

lemma int_interval_first: "(k::int) \<le> n \<Longrightarrow> {k..n} = insert k {k + 1..n}"
  by auto

lemma holeLoop_total:
  "fst (holeLoop ps hc k t b) = t + (\<Sum>h = k..hc. playerLoop ps h hc 0)"
proof (induction ps hc k t b rule: holeLoop.induct)
  case (1 ps hc k t b)
  show ?case
  proof (cases "k \<le> hc")
    case True
    have "(\<Sum>h = k..hc. playerLoop ps h hc 0) = playerLoop ps k hc 0 + (\<Sum>h = k + 1..hc. playerLoop ps h hc 0)"
      by (simp add: int_interval_first [OF True])
    with True "1.IH" [OF True refl] show ?thesis
      by (subst holeLoop.simps) (simp add: Let_def)
  next
    case False
    then show ?thesis by (subst holeLoop.simps) simp
  qed
qed

lemma holeLoop_breakdown:
  "snd (holeLoop ps hc k t b) =
     b @ map (\<lambda>h. ''H'' @ showInt h @ '': '' @ showInt (playerLoop ps h hc 0) @ ''pts'') [k..hc]"
proof (induction ps hc k t b rule: holeLoop.induct)
  case (1 ps hc k t b)
  show ?case
  proof (cases "k \<le> hc")
    case True
    have u: "[k..hc] = k # [k + 1..hc]" using True by (rule upto_rec1)
    from "1.IH" [OF True refl] True show ?thesis
      by (subst holeLoop.simps) (simp add: Let_def u)
  next
    case False
    then show ?thesis by (subst holeLoop.simps) simp
  qed
qed

text \<open>
  Claim C1. In the points (champagne) format with at least one player, the points of a
  hole are the maximum of the players' Stableford points on that hole (this is the
  value the loop over the players ends with, and the value the breakdown prints for
  the hole), and the points total is the sum of these maxima over the holes
  \<open>1..holeCount\<close>. On hole 1 of an 18-hole team (stroke index 10) a player of handicap 5
  gets no stroke and scores 2 points with a gross 4; a player of handicap 15 gets one
  stroke and scores 2 points with a gross 5; the best ball of the two is 2 points.
\<close>

theorem champagne_best_ball:
  "(players td \<noteq> [] \<longrightarrow>
      (\<exists>r. calculateChampagneScramble td = Inr r \<and>
           pointsTotal r = Some (\<Sum>h = 1..holeCount td.
              Max ((\<lambda>p. playerHolePoints p h (holeCount td)) ` set (players td))) \<and>
           breakdown r = Some (''Total Points: '' @ showInt (the (pointsTotal r)) @ '' ('' @
              join '', '' (map (\<lambda>h. ''H'' @ showInt h @ '': '' @
                 showInt (Max ((\<lambda>p. playerHolePoints p h (holeCount td)) ` set (players td))) @
                 ''pts'') [1..holeCount td]) @ '')''))) \<and>
   (ps \<noteq> [] \<longrightarrow> playerLoop ps h hc 0 = Max ((\<lambda>p. playerHolePoints p h hc) ` set ps)) \<and>
   getStrokeIndex 1 18 = Some 10 \<and>
   getHoleHandicapStrokes 5 1 18 = 0 \<and>
   playerHolePoints \<lparr>name = n1, handicap = 5, holeScores = 4 # s1\<rparr> 1 18 = 2 \<and>
   getHoleHandicapStrokes 15 1 18 = 1 \<and>
   playerHolePoints \<lparr>name = n2, handicap = 15, holeScores = 5 # s2\<rparr> 1 18 = 2 \<and>
   playerLoop [\<lparr>name = n1, handicap = 5, holeScores = 4 # s1\<rparr>,
               \<lparr>name = n2, handicap = 15, holeScores = 5 # s2\<rparr>] 1 18 0 = 2"
proof -
  have total: "players td \<noteq> [] \<longrightarrow>
      (\<exists>r. calculateChampagneScramble td = Inr r \<and>
           pointsTotal r = Some (\<Sum>h = 1..holeCount td.
              Max ((\<lambda>p. playerHolePoints p h (holeCount td)) ` set (players td))) \<and>
           breakdown r = Some (''Total Points: '' @ showInt (the (pointsTotal r)) @ '' ('' @
              join '', '' (map (\<lambda>h. ''H'' @ showInt h @ '': '' @
                 showInt (Max ((\<lambda>p. playerHolePoints p h (holeCount td)) ` set (players td))) @
                 ''pts'') [1..holeCount td]) @ '')''))"
  proof
    assume ne: "players td \<noteq> []"
    then obtain p ps where ps: "players td = p # ps" by (cases "players td") auto
    define S where "S = (\<Sum>h = 1..holeCount td.
              Max ((\<lambda>p. playerHolePoints p h (holeCount td)) ` set (players td)))"
    define B where "B = map (\<lambda>h. ''H'' @ showInt h @ '': '' @
                 showInt (Max ((\<lambda>p. playerHolePoints p h (holeCount td)) ` set (players td))) @
                 ''pts'') [1..holeCount td]"
    obtain t b where hl: "holeLoop (p # ps) (holeCount td) 1 0 [] = (t, b)"
      by (cases "holeLoop (p # ps) (holeCount td) 1 0 []") auto
    have "fst (holeLoop (players td) (holeCount td) 1 0 []) = S"
      by (simp add: holeLoop_total playerLoop_Max [OF ne] S_def)
    with hl have t: "t = S" by (simp add: ps)
    have "snd (holeLoop (players td) (holeCount td) 1 0 []) = B"
      by (simp add: holeLoop_breakdown playerLoop_Max [OF ne] B_def)
    with hl have b: "b = B" by (simp add: ps)
    have "\<exists>r. calculateChampagneScramble td = Inr r \<and> pointsTotal r = Some S \<and>
           breakdown r = Some (''Total Points: '' @ showInt (the (pointsTotal r)) @ '' ('' @
              join '', '' B @ '')'')"
      by (simp add: calculateChampagneScramble_def ps hl Let_def t b)
    then show "\<exists>r. calculateChampagneScramble td = Inr r \<and>
           pointsTotal r = Some (\<Sum>h = 1..holeCount td.
              Max ((\<lambda>p. playerHolePoints p h (holeCount td)) ` set (players td))) \<and>
           breakdown r = Some (''Total Points: '' @ showInt (the (pointsTotal r)) @ '' ('' @
              join '', '' (map (\<lambda>h. ''H'' @ showInt h @ '': '' @
                 showInt (Max ((\<lambda>p. playerHolePoints p h (holeCount td)) ` set (players td))) @
                 ''pts'') [1..holeCount td]) @ '')'')"
      by (simp only: S_def B_def)
  qed
  have hole: "ps \<noteq> [] \<longrightarrow> playerLoop ps h hc 0 = Max ((\<lambda>p. playerHolePoints p h hc) ` set ps)"
    by (simp add: playerLoop_Max)
  have si: "getStrokeIndex 1 18 = Some 10"
    by (simp add: getStrokeIndex_def jsIndex_def STROKE_INDEX_18_def)
  have s5: "getHoleHandicapStrokes 5 1 18 = 0"
    by (simp add: getHoleHandicapStrokes_def si)
  have s15: "getHoleHandicapStrokes 15 1 18 = 1"
    by (simp add: getHoleHandicapStrokes_def si)
  have p5: "playerHolePoints \<lparr>name = n1, handicap = 5, holeScores = 4 # s1\<rparr> 1 18 = 2"
    by (simp add: playerHolePoints_def jsIndex_def s5 netScoreToStableford_def)
  have p15: "playerHolePoints \<lparr>name = n2, handicap = 15, holeScores = 5 # s2\<rparr> 1 18 = 2"
    by (simp add: playerHolePoints_def jsIndex_def s15 netScoreToStableford_def)
  have best: "playerLoop [\<lparr>name = n1, handicap = 5, holeScores = 4 # s1\<rparr>,
               \<lparr>name = n2, handicap = 15, holeScores = 5 # s2\<rparr>] 1 18 0 = 2"
    by (simp add: p5 p15)
  from total hole si s5 p5 s15 p15 best show ?thesis by blast
qed

theorem champagne_best_ball_witness:
  "players scenarioPoints \<noteq> [] \<and>
   (\<exists>r. calculateChampagneScramble scenarioPoints = Inr r \<and>
        pointsTotal r = Some (\<Sum>h = 1..holeCount scenarioPoints.
           Max ((\<lambda>p. playerHolePoints p h (holeCount scenarioPoints)) ` set (players scenarioPoints))) \<and>
        pointsTotal r = Some 40 \<and> grossTotal r = 75 \<and> teamHandicap r = 2)"
proof -
  have ne: "players scenarioPoints \<noteq> []" by simp
  have ev: "calculateChampagneScramble scenarioPoints =
     Inr \<lparr>grossTotal = 75, teamHandicap = 2, netScore = None, pointsTotal = Some 40,
          breakdown = Some ''Total Points: 40 (H1: 2pts, H2: 3pts, H3: 2pts, H4: 3pts, H5: 2pts, H6: 2pts, H7: 2pts, H8: 2pts, H9: 2pts, H10: 2pts, H11: 3pts, H12: 2pts, H13: 2pts, H14: 2pts, H15: 3pts, H16: 2pts, H17: 2pts, H18: 2pts)''\<rparr>"
    by code_simp
  from champagne_best_ball [of scenarioPoints] ne
  obtain r where r: "calculateChampagneScramble scenarioPoints = Inr r"
    and p: "pointsTotal r = Some (\<Sum>h = 1..holeCount scenarioPoints.
           Max ((\<lambda>p. playerHolePoints p h (holeCount scenarioPoints)) ` set (players scenarioPoints)))"
    by blast
  from r ev have "pointsTotal r = Some 40 \<and> grossTotal r = 75 \<and> teamHandicap r = 2" by auto
  with ne r p show ?thesis by blast
qed

text \<open>
  Claim C2. In the straight format with at least one player, the team handicap is the
  sum of the handicaps times 0.1 rounded to the nearest integer (\<^const>\<open>round\<close> is
  \<open>\<lfloor>x + 1/2\<rfloor>\<close>, which is what \<open>Math.round\<close> computes), the gross total is the sum of
  the first player's scores, and the net score is the gross total minus the team
  handicap. Handicaps 8, 12 and 6 give team handicap 3; with a first player whose
  scores sum to 75 the gross total is 75 and the net score 72.
\<close>

theorem straight_scramble_result:
  "(players td \<noteq> [] \<longrightarrow>
     (\<exists>r. calculateStraightScramble td = Inr r \<and>
          teamHandicap r = round (real_of_int (sum_list (map handicap (players td))) * 0.1) \<and>
          grossTotal r = sum_list (holeScores (hd (players td))) \<and>
          netScore r = Some (grossTotal r - teamHandicap r))) \<and>
   calculateTeamHandicap [8, 12, 6] = 3 \<and>
   (map handicap (players td) = [8, 12, 6] \<and> sum_list (holeScores (hd (players td))) = 75 \<longrightarrow>
     (\<exists>r. calculateStraightScramble td = Inr r \<and>
          teamHandicap r = 3 \<and> grossTotal r = 75 \<and> netScore r = Some 72))"
proof -
  have th: "calculateTeamHandicap [8, 12, 6] = 3"
    by (simp add: calculateTeamHandicap_def)
  have gen: "players td \<noteq> [] \<longrightarrow>
     (\<exists>r. calculateStraightScramble td = Inr r \<and>
          teamHandicap r = round (real_of_int (sum_list (map handicap (players td))) * 0.1) \<and>
          grossTotal r = sum_list (holeScores (hd (players td))) \<and>
          netScore r = Some (grossTotal r - teamHandicap r))"
  proof
    assume "players td \<noteq> []"
    then obtain p ps where ps: "players td = p # ps" by (cases "players td") auto
    have "calculateTeamHandicap (map handicap (p # ps))
            = round (real_of_int (sum_list (map handicap (p # ps))) * 0.1)"
      by (rule calculateTeamHandicap_round)
    then show "\<exists>r. calculateStraightScramble td = Inr r \<and>
          teamHandicap r = round (real_of_int (sum_list (map handicap (players td))) * 0.1) \<and>
          grossTotal r = sum_list (holeScores (hd (players td))) \<and>
          netScore r = Some (grossTotal r - teamHandicap r)"
      by (simp add: calculateStraightScramble_def ps Let_def calculateGrossTotal_sum)
  qed
  have scen: "map handicap (players td) = [8, 12, 6] \<and> sum_list (holeScores (hd (players td))) = 75 \<longrightarrow>
     (\<exists>r. calculateStraightScramble td = Inr r \<and>
          teamHandicap r = 3 \<and> grossTotal r = 75 \<and> netScore r = Some 72)"
  proof
    assume a: "map handicap (players td) = [8, 12, 6] \<and> sum_list (holeScores (hd (players td))) = 75"
    then obtain p ps where ps: "players td = p # ps" by (cases "players td") auto
    from a ps have g: "calculateGrossTotal (holeScores p) = 75"
      by (simp add: calculateGrossTotal_sum)
    from a have h: "calculateTeamHandicap (map handicap (players td)) = 3"
      by (simp only: th)
    show "\<exists>r. calculateStraightScramble td = Inr r \<and>
          teamHandicap r = 3 \<and> grossTotal r = 75 \<and> netScore r = Some 72"
      using g h by (simp add: calculateStraightScramble_def ps Let_def)
  qed
  from gen th scen show ?thesis by blast
qed

theorem straight_scramble_result_witness:
  "players scenarioStraight \<noteq> [] \<and>
   map handicap (players scenarioStraight) = [8, 12, 6] \<and>
   sum_list (holeScores (hd (players scenarioStraight))) = 75 \<and>
   (\<exists>r. calculateStraightScramble scenarioStraight = Inr r \<and>
        teamHandicap r = 3 \<and> grossTotal r = 75 \<and> netScore r = Some 72) \<and>
   calculateStraightScramble scenarioStraight =
     Inr \<lparr>grossTotal = 75, teamHandicap = 3, netScore = Some 72, pointsTotal = None,
          breakdown = Some ''Gross: 75, Team HCP: 3, Net: 72''\<rparr>"
proof -
  have ne: "players scenarioStraight \<noteq> []" by simp
  have h: "map handicap (players scenarioStraight) = [8, 12, 6]" by simp
  have g: "sum_list (holeScores (hd (players scenarioStraight))) = 75" by simp
  have ev: "calculateStraightScramble scenarioStraight =
     Inr \<lparr>grossTotal = 75, teamHandicap = 3, netScore = Some 72, pointsTotal = None,
          breakdown = Some ''Gross: 75, Team HCP: 3, Net: 72''\<rparr>"
    by code_simp
  from straight_scramble_result [of scenarioStraight] h g
  have "\<exists>r. calculateStraightScramble scenarioStraight = Inr r \<and>
        teamHandicap r = 3 \<and> grossTotal r = 75 \<and> netScore r = Some 72"
    by blast
  with ne h g ev show ?thesis by blast
qed

subsection \<open>Stroke allocation and the Stableford table\<close>

text \<open>
  Claim C6. The source tests \<open>playerHandicap >= strokeIndex\<close> before
  \<open>playerHandicap >= strokeIndex + 18\<close>, so the second test is never reached with a true
  outcome: handicap 30 on the stroke-index-1 hole (hole 11 of 18) gets 1 stroke, and no
  input gets 2.
\<close>

theorem strokes_never_two:
  "getStrokeIndex 11 18 = Some 1 \<and> getHoleHandicapStrokes 30 11 18 = 1 \<and>
   (\<forall>h n t. getHoleHandicapStrokes h n t \<noteq> 2)"
  by (simp add: getHoleHandicapStrokes_def getStrokeIndex_def jsIndex_def STROKE_INDEX_18_def
      split: option.splits)

text \<open>
  Claim C10. A net score of -1 or less (five or more under the par of 4) scores 0
  points, as a double bogey does, while a net score of 0 scores 6: the points are
  neither decreasing nor increasing in the net score. At the exported interface: a
  one-hole team whose only player has gross score 0 scores 0 points when the player
  gets a stroke (net -1) and 6 points when not (net 0).
\<close>

theorem stableford_deep_under_par_zero:
  "(\<forall>n. n \<le> -1 \<longrightarrow> netScoreToStableford n 4 = 0) \<and>
   netScoreToStableford 6 4 = 0 \<and>
   netScoreToStableford 0 4 = 6 \<and>
   \<not> antimono (\<lambda>n. netScoreToStableford n 4) \<and>
   \<not> mono (\<lambda>n. netScoreToStableford n 4) \<and>
   (\<exists>r. calculateChampagneScramble
          \<lparr>teamName = t, players = [\<lparr>name = p, handicap = 10, holeScores = [0]\<rparr>],
           holeCount = 1, scrambleMode = Champagne\<rparr> = Inr r \<and> pointsTotal r = Some 0) \<and>
   (\<exists>r. calculateChampagneScramble
          \<lparr>teamName = t, players = [\<lparr>name = p, handicap = 9, holeScores = [0]\<rparr>],
           holeCount = 1, scrambleMode = Champagne\<rparr> = Inr r \<and> pointsTotal r = Some 6)"
proof -
  have z: "\<forall>n. n \<le> -1 \<longrightarrow> netScoreToStableford n 4 = 0"
    by (simp add: netScoreToStableford_def)
  have d: "netScoreToStableford 6 4 = 0" and c: "netScoreToStableford 0 4 = 6"
    and m1: "netScoreToStableford (-1) 4 = 0" and par: "netScoreToStableford 4 4 = 2"
    by (simp_all add: netScoreToStableford_def)
  have na: "\<not> antimono (\<lambda>n. netScoreToStableford n 4)"
  proof
    assume "antimono (\<lambda>n. netScoreToStableford n 4)"
    then have "netScoreToStableford 0 4 \<le> netScoreToStableford (-1) 4"
      by (rule antimonoD) simp
    with c m1 show False by simp
  qed
  have nm: "\<not> mono (\<lambda>n. netScoreToStableford n 4)"
  proof
    assume "mono (\<lambda>n. netScoreToStableford n 4)"
    then have "netScoreToStableford 0 4 \<le> netScoreToStableford 4 4"
      by (rule monoD) simp
    with c par show False by simp
  qed
  have si: "getStrokeIndex 1 1 = Some 10"
    by (simp add: getStrokeIndex_def jsIndex_def STROKE_INDEX_18_def)
  have hl: "holeLoop ps 1 2 tot b = (tot, b)" for ps tot b
    by (subst holeLoop.simps) simp
  have a: "\<exists>r. calculateChampagneScramble
          \<lparr>teamName = t, players = [\<lparr>name = p, handicap = 10, holeScores = [0]\<rparr>],
           holeCount = 1, scrambleMode = Champagne\<rparr> = Inr r \<and> pointsTotal r = Some 0"
    by (simp add: calculateChampagneScramble_def Let_def holeLoop.simps [of _ 1 1] hl
        playerHolePoints_def jsIndex_def getHoleHandicapStrokes_def si m1)
  have b: "\<exists>r. calculateChampagneScramble
          \<lparr>teamName = t, players = [\<lparr>name = p, handicap = 9, holeScores = [0]\<rparr>],
           holeCount = 1, scrambleMode = Champagne\<rparr> = Inr r \<and> pointsTotal r = Some 6"
    by (simp add: calculateChampagneScramble_def Let_def holeLoop.simps [of _ 1 1] hl
        playerHolePoints_def jsIndex_def getHoleHandicapStrokes_def si c)
  from z d c na nm a b show ?thesis by blast
qed

theorem stableford_deep_under_par_zero_witness:
  "(-1::int) \<le> -1 \<and> netScoreToStableford (-1) 4 = 0 \<and> netScoreToStableford (-3) 4 = 0"
  using stableford_deep_under_par_zero [of t p] by simp

subsection \<open>Tie-break and ranking\<close>

text \<open>
  Claim C7. \<open>breakTie\<close> is antisymmetric (for all pairs, so in particular when gross
  totals or handicaps differ), and it is 0 exactly when both gross total and team
  handicap are equal.
\<close>

theorem breakTie_antisymmetric:
  "breakTie a b = - breakTie b a \<and>
   (breakTie a b = 0 \<longleftrightarrow> grossTotal a = grossTotal b \<and> teamHandicap a = teamHandicap b)"
  by (simp add: breakTie_def)

theorem breakTie_antisymmetric_witness:
  "breakTie \<lparr>grossTotal = 75, teamHandicap = 3\<rparr> \<lparr>grossTotal = 75, teamHandicap = 2\<rparr> = 1 \<and>
   breakTie \<lparr>grossTotal = 75, teamHandicap = 2\<rparr> \<lparr>grossTotal = 75, teamHandicap = 3\<rparr> = - 1 \<and>
   breakTie \<lparr>grossTotal = 75, teamHandicap = 3\<rparr> \<lparr>grossTotal = 75, teamHandicap = 3\<rparr> = 0"
  using breakTie_antisymmetric [of "\<lparr>grossTotal = 75, teamHandicap = 3\<rparr>" "\<lparr>grossTotal = 75, teamHandicap = 2\<rparr>"]
    breakTie_antisymmetric [of "\<lparr>grossTotal = 75, teamHandicap = 3\<rparr>" "\<lparr>grossTotal = 75, teamHandicap = 3\<rparr>"]
  by (simp add: breakTie_def)

lemma insertBy_mset: "mset (insertBy cmp x ys) = add_mset x (mset ys)"
  by (induction ys) simp_all

lemma sortBy_Cons: "sortBy cmp (x # xs) = insertBy cmp x (sortBy cmp xs)"
  by (simp add: sortBy_def)

lemma sortBy_Nil: "sortBy cmp [] = []"
  by (simp add: sortBy_def)

lemma sortBy_mset: "mset (sortBy cmp xs) = mset xs"
  by (induction xs) (simp_all add: sortBy_Nil sortBy_Cons insertBy_mset)

lemma insertBy_set: "set (insertBy cmp x ys) = insert x (set ys)"
  using insertBy_mset [of cmp x ys] by (metis set_mset_add_mset_insert set_mset_mset)

lemma sortBy_set: "set (sortBy cmp xs) = set xs"
  using sortBy_mset [of cmp xs] by (metis set_mset_mset)

lemma sortBy_length: "length (sortBy cmp xs) = length xs"
  using sortBy_mset [of cmp xs] by (metis size_mset)

text \<open>Sorted by the comparator itself, where it is total and transitive on the elements.\<close>

lemma insertBy_sorted_cmp:
  assumes tot: "\<And>a b. a \<in> S \<Longrightarrow> b \<in> S \<Longrightarrow> \<not> cmp a b \<le> 0 \<Longrightarrow> cmp b a \<le> (0::int)"
      and tr: "\<And>a b c. a \<in> S \<Longrightarrow> b \<in> S \<Longrightarrow> c \<in> S \<Longrightarrow> cmp a b \<le> 0 \<Longrightarrow> cmp b c \<le> 0 \<Longrightarrow> cmp a c \<le> 0"
      and x: "x \<in> S" and ys: "set ys \<subseteq> S"
      and s: "sorted_wrt (\<lambda>a b. cmp a b \<le> 0) ys"
  shows "sorted_wrt (\<lambda>a b. cmp a b \<le> 0) (insertBy cmp x ys)"
  using ys s
proof (induction ys)
  case Nil
  show ?case by simp
next
  case (Cons y ys)
  from Cons.prems have y: "y \<in> S" and ys: "set ys \<subseteq> S" by simp_all
  show ?case
  proof (cases "cmp x y \<le> 0")
    case True
    have "cmp x z \<le> 0" if "z \<in> set ys" for z
    proof -
      from that Cons.prems have "cmp y z \<le> 0" and "z \<in> S" by auto
      with tr [OF x y _ True] show ?thesis by blast
    qed
    with True Cons.prems show ?thesis by auto
  next
    case False
    from tot [OF x y False] have "cmp y x \<le> 0" .
    moreover from Cons.prems have "sorted_wrt (\<lambda>a b. cmp a b \<le> 0) ys" by simp
    from Cons.IH [OF ys this] have "sorted_wrt (\<lambda>a b. cmp a b \<le> 0) (insertBy cmp x ys)" .
    ultimately show ?thesis
      using False Cons.prems by (auto simp: insertBy_set)
  qed
qed

lemma sortBy_sorted_cmp:
  assumes tot: "\<And>a b. a \<in> S \<Longrightarrow> b \<in> S \<Longrightarrow> \<not> cmp a b \<le> 0 \<Longrightarrow> cmp b a \<le> (0::int)"
      and tr: "\<And>a b c. a \<in> S \<Longrightarrow> b \<in> S \<Longrightarrow> c \<in> S \<Longrightarrow> cmp a b \<le> 0 \<Longrightarrow> cmp b c \<le> 0 \<Longrightarrow> cmp a c \<le> 0"
      and xs: "set xs \<subseteq> S"
  shows "sorted_wrt (\<lambda>a b. cmp a b \<le> 0) (sortBy cmp xs)"
  using xs
proof (induction xs)
  case Nil
  show ?case by (simp add: sortBy_Nil)
next
  case (Cons x xs)
  from Cons.prems have x: "x \<in> S" and xs: "set xs \<subseteq> S" by simp_all
  have "set (sortBy cmp xs) \<subseteq> S" using xs by (simp add: sortBy_set)
  from insertBy_sorted_cmp [of S cmp, OF tot tr x this Cons.IH [OF xs]]
  show ?case by (simp add: sortBy_Cons)
qed

lemma compareStraight_total:
  "\<not> compareStraight a b \<le> 0 \<Longrightarrow> compareStraight b a \<le> 0"
  by (auto simp: compareStraight_def breakTie_def split: if_splits)

lemma compareStraight_trans:
  assumes "netScore a \<noteq> None" "netScore b \<noteq> None" "netScore c \<noteq> None"
      and "compareStraight a b \<le> 0" "compareStraight b c \<le> 0"
  shows "compareStraight a c \<le> 0"
  using assms by (auto simp: compareStraight_def breakTie_def orZero_def split: if_splits)

lemma compareChampagne_total:
  "\<not> compareChampagne a b \<le> 0 \<Longrightarrow> compareChampagne b a \<le> 0"
  by (auto simp: compareChampagne_def breakTie_def split: if_splits)

lemma compareChampagne_trans:
  assumes "pointsTotal a \<noteq> None" "pointsTotal b \<noteq> None" "pointsTotal c \<noteq> None"
      and "compareChampagne a b \<le> 0" "compareChampagne b c \<le> 0"
  shows "compareChampagne a c \<le> 0"
  using assms by (auto simp: compareChampagne_def breakTie_def orZero_def split: if_splits)

lemma pushRanks_ids: "map rank_id (pushRanks xs i) = map team_id xs"
  by (induction xs arbitrary: i) simp_all

lemma pushRanks_ranks: "map rank (pushRanks xs i) = [int i + 1..int i + int (length xs)]"
proof (induction xs arbitrary: i)
  case Nil
  show ?case by simp
next
  case (Cons x xs)
  have "[int i + 1..int i + int (length (x # xs))] = (int i + 1) # [int (Suc i) + 1..int (Suc i) + int (length xs)]"
    by (subst upto.simps) (simp add: add.commute add.left_commute)
  with Cons.IH [of "Suc i"] show ?case by simp
qed

lemma pushRanks_length: "length (pushRanks xs i) = length xs"
  by (induction xs arbitrary: i) simp_all

lemma pushRanks_zip:
  "pushRanks xs i =
     map (\<lambda>(t, r). \<lparr>rank_id = team_id t, rank = r\<rparr>) (zip xs [int i + 1..int i + int (length xs)])"
proof (induction xs arbitrary: i)
  case Nil
  show ?case by simp
next
  case (Cons x xs)
  have "[int i + 1..int i + int (length (x # xs))] = (int i + 1) # [int (Suc i) + 1..int (Suc i) + int (length xs)]"
    by (subst upto.simps) (simp add: add.commute add.left_commute)
  with Cons.IH [of "Suc i"] show ?case by simp
qed

lemma pushRanks_zip0:
  "pushRanks xs 0 = map (\<lambda>(t, r). \<lparr>rank_id = team_id t, rank = r\<rparr>) (zip xs [1..int (length xs)])"
  using pushRanks_zip [of xs 0] by simp

lemma mode_not_Straight: "(mode t \<noteq> Straight) = (mode t = Champagne)"
  by (cases "mode t") simp_all

lemma rankTeams_straight_only:
  "rankTeams (filter (\<lambda>t. mode t = Straight) teams)
     = pushRanks (sortBy compareStraight (filter (\<lambda>t. mode t = Straight) teams)) 0"
proof -
  have "filter (\<lambda>t. mode t = Champagne) (filter (\<lambda>t. mode t = Straight) teams) = []"
    by (induction teams) simp_all
  then show ?thesis by (simp add: rankTeams_def Let_def sortBy_Nil)
qed

lemma rankTeams_champagne_only:
  "rankTeams (filter (\<lambda>t. mode t = Champagne) teams)
     = pushRanks (sortBy compareChampagne (filter (\<lambda>t. mode t = Champagne) teams)) 0"
proof -
  have "filter (\<lambda>t. mode t = Straight) (filter (\<lambda>t. mode t = Champagne) teams) = []"
    by (induction teams) simp_all
  then show ?thesis by (simp add: rankTeams_def Let_def sortBy_Nil)
qed

lemma straight_sorted_tiebreak:
  assumes "\<forall>t\<in>set xs. netScore t \<noteq> None"
  shows "sorted_wrt (\<lambda>a b. orZero (netScore a) < orZero (netScore b) \<or>
                           (netScore a = netScore b \<and> breakTie a b \<le> 0))
           (sortBy compareStraight xs)"
proof -
  have s: "sorted_wrt (\<lambda>a b. compareStraight a b \<le> 0) (sortBy compareStraight xs)"
  proof (rule sortBy_sorted_cmp [where S = "{t. netScore t \<noteq> None}"])
    show "set xs \<subseteq> {t. netScore t \<noteq> None}" using assms by auto
  qed (auto intro: compareStraight_total compareStraight_trans)
  have imp: "orZero (netScore a) < orZero (netScore b) \<or> (netScore a = netScore b \<and> breakTie a b \<le> 0)"
    if "a \<in> set xs" "b \<in> set xs" "compareStraight a b \<le> 0" for a b
  proof -
    from that assms obtain x y where "netScore a = Some x" "netScore b = Some y" by blast
    with that show ?thesis
      by (auto simp: compareStraight_def orZero_def split: if_splits)
  qed
  show ?thesis
  proof (rule sorted_wrt_mono_rel [OF _ s])
    fix a b
    assume "a \<in> set (sortBy compareStraight xs)" "b \<in> set (sortBy compareStraight xs)"
      and "compareStraight a b \<le> 0"
    then show "orZero (netScore a) < orZero (netScore b) \<or> (netScore a = netScore b \<and> breakTie a b \<le> 0)"
      by (simp add: sortBy_set imp)
  qed
qed

lemma champagne_sorted_tiebreak:
  assumes "\<forall>t\<in>set xs. pointsTotal t \<noteq> None"
  shows "sorted_wrt (\<lambda>a b. orZero (pointsTotal b) < orZero (pointsTotal a) \<or>
                           (pointsTotal a = pointsTotal b \<and> breakTie a b \<le> 0))
           (sortBy compareChampagne xs)"
proof -
  have s: "sorted_wrt (\<lambda>a b. compareChampagne a b \<le> 0) (sortBy compareChampagne xs)"
  proof (rule sortBy_sorted_cmp [where S = "{t. pointsTotal t \<noteq> None}"])
    show "set xs \<subseteq> {t. pointsTotal t \<noteq> None}" using assms by auto
  qed (auto intro: compareChampagne_total compareChampagne_trans)
  have imp: "orZero (pointsTotal b) < orZero (pointsTotal a) \<or> (pointsTotal a = pointsTotal b \<and> breakTie a b \<le> 0)"
    if "a \<in> set xs" "b \<in> set xs" "compareChampagne a b \<le> 0" for a b
  proof -
    from that assms obtain x y where "pointsTotal a = Some x" "pointsTotal b = Some y" by blast
    with that show ?thesis
      by (auto simp: compareChampagne_def orZero_def split: if_splits)
  qed
  show ?thesis
  proof (rule sorted_wrt_mono_rel [OF _ s])
    fix a b
    assume "a \<in> set (sortBy compareChampagne xs)" "b \<in> set (sortBy compareChampagne xs)"
      and "compareChampagne a b \<le> 0"
    then show "orZero (pointsTotal b) < orZero (pointsTotal a) \<or> (pointsTotal a = pointsTotal b \<and> breakTie a b \<le> 0)"
      by (simp add: sortBy_set imp)
  qed
qed

text \<open>
  Where every team carries its score the comparator is the lexicographic order of the
  key (score, gross total, team handicap), and the sort is the stable sort by that key.
  A stable sort by a key has one result only (\<open>properties_for_sort_key\<close>), so on these
  inputs the list is the one every conforming \<open>Array.prototype.sort\<close> returns.
\<close>

lemma insertBy_insort_key:
  assumes "\<And>y. y \<in> set ys \<Longrightarrow> (cmp x y \<le> (0::int)) = (f x \<le> f y)"
  shows "insertBy cmp x ys = insort_key f x ys"
  using assms by (induction ys) simp_all

lemma sortBy_sort_key:
  assumes "\<And>x y. x \<in> set xs \<Longrightarrow> y \<in> set xs \<Longrightarrow> (cmp x y \<le> (0::int)) = (f x \<le> f y)"
  shows "sortBy cmp xs = sort_key f xs"
  using assms
proof (induction xs)
  case Nil
  show ?case by (simp add: sortBy_Nil)
next
  case (Cons x xs)
  have ih: "sortBy cmp xs = sort_key f xs"
    by (rule Cons.IH) (simp_all add: Cons.prems)
  have "insertBy cmp x (sort_key f xs) = insort_key f x (sort_key f xs)"
    by (rule insertBy_insort_key) (simp add: Cons.prems)
  with ih show ?case by (simp add: sortBy_Cons)
qed

lemma compareStraight_key:
  assumes "netScore a \<noteq> None" "netScore b \<noteq> None"
  shows "(compareStraight a b \<le> 0) =
         ((orZero (netScore a), grossTotal a, teamHandicap a) \<le> (orZero (netScore b), grossTotal b, teamHandicap b))"
  using assms by (auto simp: compareStraight_def breakTie_def orZero_def less_eq_prod_def)

lemma compareChampagne_key:
  assumes "pointsTotal a \<noteq> None" "pointsTotal b \<noteq> None"
  shows "(compareChampagne a b \<le> 0) =
         ((- orZero (pointsTotal a), grossTotal a, teamHandicap a) \<le> (- orZero (pointsTotal b), grossTotal b, teamHandicap b))"
  using assms by (auto simp: compareChampagne_def breakTie_def orZero_def less_eq_prod_def)

lemma straight_stable_sort:
  assumes "\<forall>t\<in>set xs. netScore t \<noteq> None"
  shows "sortBy compareStraight xs =
         sort_key (\<lambda>t. (orZero (netScore t), grossTotal t, teamHandicap t)) xs"
  by (rule sortBy_sort_key) (simp add: compareStraight_key assms)

lemma champagne_stable_sort:
  assumes "\<forall>t\<in>set xs. pointsTotal t \<noteq> None"
  shows "sortBy compareChampagne xs =
         sort_key (\<lambda>t. (- orZero (pointsTotal t), grossTotal t, teamHandicap t)) xs"
  by (rule sortBy_sort_key) (simp add: compareChampagne_key assms)

text \<open>
  Without its score a team compares as equal (comparator value 0) to a team whose score
  is 0, whatever their gross totals: \<open>a.netScore !== b.netScore\<close> holds and the
  difference of the \<open>|| 0\<close> values is 0, so \<open>breakTie\<close> is not consulted.
\<close>

lemma compareStraight_absent:
  "netScore a = None \<Longrightarrow> netScore b = Some 0 \<Longrightarrow>
     compareStraight a b = 0 \<and> compareStraight b a = 0"
  by (simp add: compareStraight_def orZero_def)

lemma compareChampagne_absent:
  "pointsTotal a = None \<Longrightarrow> pointsTotal b = Some 0 \<Longrightarrow>
     compareChampagne a b = 0 \<and> compareChampagne b a = 0"
  by (simp add: compareChampagne_def orZero_def)

text \<open>
  Claim C3, as amended. Let every straight team carry a net score and every champagne
  team a points total (the teams that \<open>calculateTeamScore\<close> builds do). Then
  \<open>rankTeams\<close> splits the teams by format and ranks each group on its own: there are
  an ordering \<open>ss\<close> of the straight teams and an ordering \<open>cs\<close> of the champagne teams
  such that the result lists \<open>ss\<close> with ranks \<open>1..N\<close> followed by \<open>cs\<close> with ranks
  \<open>1..M\<close>; ranking either group alone gives the same entries, so no rank of a group
  depends on the other group; \<open>ss\<close> ascends in net score and \<open>cs\<close> descends in points
  total, with \<open>breakTie\<close> deciding exact ties.
\<close>

theorem rankTeams_by_format:
  "(\<forall>t\<in>set teams. (mode t = Straight \<longrightarrow> netScore t \<noteq> None) \<and>
                   (mode t = Champagne \<longrightarrow> pointsTotal t \<noteq> None)) \<longrightarrow>
   (\<exists>ss cs.
     mset ss = mset (filter (\<lambda>t. mode t = Straight) teams) \<and>
     mset cs = mset (filter (\<lambda>t. mode t = Champagne) teams) \<and>
     rankTeams teams =
       map (\<lambda>(t, r). \<lparr>rank_id = team_id t, rank = r\<rparr>) (zip ss [1..int (length ss)]) @
       map (\<lambda>(t, r). \<lparr>rank_id = team_id t, rank = r\<rparr>) (zip cs [1..int (length cs)]) \<and>
     rankTeams (filter (\<lambda>t. mode t = Straight) teams) =
       map (\<lambda>(t, r). \<lparr>rank_id = team_id t, rank = r\<rparr>) (zip ss [1..int (length ss)]) \<and>
     rankTeams (filter (\<lambda>t. mode t = Champagne) teams) =
       map (\<lambda>(t, r). \<lparr>rank_id = team_id t, rank = r\<rparr>) (zip cs [1..int (length cs)]) \<and>
     sorted_wrt (\<lambda>a b. orZero (netScore a) < orZero (netScore b) \<or>
                       (netScore a = netScore b \<and> breakTie a b \<le> 0)) ss \<and>
     sorted_wrt (\<lambda>a b. orZero (pointsTotal b) < orZero (pointsTotal a) \<or>
                       (pointsTotal a = pointsTotal b \<and> breakTie a b \<le> 0)) cs)"
proof
  assume wf: "\<forall>t\<in>set teams. (mode t = Straight \<longrightarrow> netScore t \<noteq> None) \<and>
                   (mode t = Champagne \<longrightarrow> pointsTotal t \<noteq> None)"
  let ?S = "filter (\<lambda>t. mode t = Straight) teams"
  let ?C = "filter (\<lambda>t. mode t = Champagne) teams"
  let ?ss = "sortBy compareStraight ?S"
  let ?cs = "sortBy compareChampagne ?C"
  have m1: "mset ?ss = mset ?S" and m2: "mset ?cs = mset ?C"
    by (rule sortBy_mset)+
  have r: "rankTeams teams = pushRanks ?ss 0 @ pushRanks ?cs 0"
    by (simp add: rankTeams_def Let_def)
  from wf have w1: "\<forall>t\<in>set ?S. netScore t \<noteq> None" by simp
  from wf have w2: "\<forall>t\<in>set ?C. pointsTotal t \<noteq> None" by simp
  note t1 = straight_sorted_tiebreak [OF w1]
  note t2 = champagne_sorted_tiebreak [OF w2]
  note z = pushRanks_zip0 [symmetric]
  show "\<exists>ss cs.
     mset ss = mset ?S \<and> mset cs = mset ?C \<and>
     rankTeams teams =
       map (\<lambda>(t, r). \<lparr>rank_id = team_id t, rank = r\<rparr>) (zip ss [1..int (length ss)]) @
       map (\<lambda>(t, r). \<lparr>rank_id = team_id t, rank = r\<rparr>) (zip cs [1..int (length cs)]) \<and>
     rankTeams ?S =
       map (\<lambda>(t, r). \<lparr>rank_id = team_id t, rank = r\<rparr>) (zip ss [1..int (length ss)]) \<and>
     rankTeams ?C =
       map (\<lambda>(t, r). \<lparr>rank_id = team_id t, rank = r\<rparr>) (zip cs [1..int (length cs)]) \<and>
     sorted_wrt (\<lambda>a b. orZero (netScore a) < orZero (netScore b) \<or>
                       (netScore a = netScore b \<and> breakTie a b \<le> 0)) ss \<and>
     sorted_wrt (\<lambda>a b. orZero (pointsTotal b) < orZero (pointsTotal a) \<or>
                       (pointsTotal a = pointsTotal b \<and> breakTie a b \<le> 0)) cs"
    apply (rule exI [of _ ?ss])
    apply (rule exI [of _ ?cs])
    apply (intro conjI)
          apply (rule m1)
         apply (rule m2)
        apply (simp only: z r)
       apply (simp only: z rankTeams_straight_only)
      apply (simp only: z rankTeams_champagne_only)
     apply (rule t1)
    apply (rule t2)
    done
qed

theorem rankTeams_by_format_witness:
  "list_all (\<lambda>t. netScore t \<noteq> None) (filter (\<lambda>t. mode t = Straight) mixedTeams) \<and>
   list_all (\<lambda>t. pointsTotal t \<noteq> None) (filter (\<lambda>t. mode t = Champagne) mixedTeams) \<and>
   (\<exists>ss cs.
     mset ss = mset (filter (\<lambda>t. mode t = Straight) mixedTeams) \<and>
     mset cs = mset (filter (\<lambda>t. mode t = Champagne) mixedTeams) \<and>
     rankTeams mixedTeams =
       map (\<lambda>(t, r). \<lparr>rank_id = team_id t, rank = r\<rparr>) (zip ss [1..int (length ss)]) @
       map (\<lambda>(t, r). \<lparr>rank_id = team_id t, rank = r\<rparr>) (zip cs [1..int (length cs)]) \<and>
     sorted_wrt (\<lambda>a b. orZero (netScore a) < orZero (netScore b) \<or>
                       (netScore a = netScore b \<and> breakTie a b \<le> 0)) ss \<and>
     sorted_wrt (\<lambda>a b. orZero (pointsTotal b) < orZero (pointsTotal a) \<or>
                       (pointsTotal a = pointsTotal b \<and> breakTie a b \<le> 0)) cs) \<and>
   rankTeams mixedTeams =
       [\<lparr>rank_id = 4, rank = 1\<rparr>, \<lparr>rank_id = 3, rank = 2\<rparr>, \<lparr>rank_id = 1, rank = 3\<rparr>,
        \<lparr>rank_id = 5, rank = 1\<rparr>, \<lparr>rank_id = 2, rank = 2\<rparr>]"
proof -
  have wf: "\<forall>t\<in>set mixedTeams. (mode t = Straight \<longrightarrow> netScore t \<noteq> None) \<and>
                        (mode t = Champagne \<longrightarrow> pointsTotal t \<noteq> None)" by simp
  have ev: "rankTeams mixedTeams =
       [\<lparr>rank_id = 4, rank = 1\<rparr>, \<lparr>rank_id = 3, rank = 2\<rparr>, \<lparr>rank_id = 1, rank = 3\<rparr>,
        \<lparr>rank_id = 5, rank = 1\<rparr>, \<lparr>rank_id = 2, rank = 2\<rparr>]"
    by (simp add: rankTeams_def sortBy_def compareStraight_def compareChampagne_def
        breakTie_def orZero_def)
  from rankTeams_by_format [of mixedTeams, THEN mp, OF wf]
  have "\<exists>ss cs.
     mset ss = mset (filter (\<lambda>t. mode t = Straight) mixedTeams) \<and>
     mset cs = mset (filter (\<lambda>t. mode t = Champagne) mixedTeams) \<and>
     rankTeams mixedTeams =
       map (\<lambda>(t, r). \<lparr>rank_id = team_id t, rank = r\<rparr>) (zip ss [1..int (length ss)]) @
       map (\<lambda>(t, r). \<lparr>rank_id = team_id t, rank = r\<rparr>) (zip cs [1..int (length cs)]) \<and>
     sorted_wrt (\<lambda>a b. orZero (netScore a) < orZero (netScore b) \<or>
                       (netScore a = netScore b \<and> breakTie a b \<le> 0)) ss \<and>
     sorted_wrt (\<lambda>a b. orZero (pointsTotal b) < orZero (pointsTotal a) \<or>
                       (pointsTotal a = pointsTotal b \<and> breakTie a b \<le> 0)) cs"
    by (elim exE conjE) (intro exI conjI; assumption)
  moreover have "list_all (\<lambda>t. netScore t \<noteq> None) (filter (\<lambda>t. mode t = Straight) mixedTeams)"
    by simp
  moreover have "list_all (\<lambda>t. pointsTotal t \<noteq> None) (filter (\<lambda>t. mode t = Champagne) mixedTeams)"
    by simp
  ultimately show ?thesis using ev by (intro conjI)
qed

text \<open>
  Claim C3 as stated (for every input collection) fails. \<open>netScore\<close> and \<open>pointsTotal\<close>
  are optional in the parameter type of \<open>rankTeams\<close>, and a team without its score
  compares as equal to a team with score 0 without any tie-break. Of three straight
  teams given in the order 1, 2, 3, where teams 1 and 3 both have net score 0, team 3
  has the lower gross total and team 2 has no net score, team 1 is ranked first and
  team 3 third: the comparator answers 0 for (1, 2) and for (2, 3), so the tie-break
  between 1 and 3 is never applied, and the comparator is not transitive. With two
  teams only, one without a net score and one with net score 0, the comparator answers
  0 in both directions, the stable sort keeps the input order, and the ranks follow the
  order of the input, not the gross totals.
\<close>

theorem rankTeams_absent_score_skips_tiebreak:
  "netScore netZeroGross72 = Some 0 \<and> netScore netZeroGross70 = Some 0 \<and>
   netScore noNetScore = None \<and>
   breakTie netZeroGross70 netZeroGross72 = - 1 \<and>
   compareStraight netZeroGross72 noNetScore = 0 \<and>
   compareStraight noNetScore netZeroGross70 = 0 \<and>
   compareStraight netZeroGross72 netZeroGross70 = 1 \<and>
   rankTeams [netZeroGross72, noNetScore, netZeroGross70] =
     [\<lparr>rank_id = 1, rank = 1\<rparr>, \<lparr>rank_id = 2, rank = 2\<rparr>, \<lparr>rank_id = 3, rank = 3\<rparr>] \<and>
   \<not> (\<exists>ss. mset ss = mset [netZeroGross72, noNetScore, netZeroGross70] \<and>
         rankTeams [netZeroGross72, noNetScore, netZeroGross70] =
           map (\<lambda>(t, r). \<lparr>rank_id = team_id t, rank = r\<rparr>) (zip ss [1..int (length ss)]) \<and>
         sorted_wrt (\<lambda>a b. orZero (netScore a) < orZero (netScore b) \<or>
                           (netScore a = netScore b \<and> breakTie a b \<le> 0)) ss) \<and>
   rankTeams [noNetScore, netZeroGross70] = [\<lparr>rank_id = 2, rank = 1\<rparr>, \<lparr>rank_id = 3, rank = 2\<rparr>] \<and>
   rankTeams [netZeroGross70, noNetScore] = [\<lparr>rank_id = 3, rank = 1\<rparr>, \<lparr>rank_id = 2, rank = 2\<rparr>]"
proof -
  have ev: "rankTeams [netZeroGross72, noNetScore, netZeroGross70] =
     [\<lparr>rank_id = 1, rank = 1\<rparr>, \<lparr>rank_id = 2, rank = 2\<rparr>, \<lparr>rank_id = 3, rank = 3\<rparr>]"
    by (simp add: rankTeams_def sortBy_def compareStraight_def breakTie_def orZero_def)
  have no: "\<not> (\<exists>ss. mset ss = mset [netZeroGross72, noNetScore, netZeroGross70] \<and>
         rankTeams [netZeroGross72, noNetScore, netZeroGross70] =
           map (\<lambda>(t, r). \<lparr>rank_id = team_id t, rank = r\<rparr>) (zip ss [1..int (length ss)]) \<and>
         sorted_wrt (\<lambda>a b. orZero (netScore a) < orZero (netScore b) \<or>
                           (netScore a = netScore b \<and> breakTie a b \<le> 0)) ss)"
  proof
    assume "\<exists>ss. mset ss = mset [netZeroGross72, noNetScore, netZeroGross70] \<and>
         rankTeams [netZeroGross72, noNetScore, netZeroGross70] =
           map (\<lambda>(t, r). \<lparr>rank_id = team_id t, rank = r\<rparr>) (zip ss [1..int (length ss)]) \<and>
         sorted_wrt (\<lambda>a b. orZero (netScore a) < orZero (netScore b) \<or>
                           (netScore a = netScore b \<and> breakTie a b \<le> 0)) ss"
    then obtain ss where m: "mset ss = mset [netZeroGross72, noNetScore, netZeroGross70]"
      and r: "rankTeams [netZeroGross72, noNetScore, netZeroGross70] =
           map (\<lambda>(t, r). \<lparr>rank_id = team_id t, rank = r\<rparr>) (zip ss [1..int (length ss)])"
      and s: "sorted_wrt (\<lambda>a b. orZero (netScore a) < orZero (netScore b) \<or>
                           (netScore a = netScore b \<and> breakTie a b \<le> 0)) ss"
      by blast
    from m have "size (mset ss) = size (mset [netZeroGross72, noNetScore, netZeroGross70])"
      by (rule arg_cong)
    then have len: "length ss = Suc (Suc (Suc 0))" by simp
    then obtain a b c where ss: "ss = [a, b, c]"
      by (auto simp: length_Suc_conv)
    from m have "set_mset (mset ss) = set_mset (mset [netZeroGross72, noNetScore, netZeroGross70])"
      by (rule arg_cong)
    then have mem: "set ss = {netZeroGross72, noNetScore, netZeroGross70}" by simp
    have up: "[1..3] = [1, 2, 3::int]" by code_simp
    from r ev ss up have ids: "team_id a = 1" "team_id b = 2" "team_id c = 3" by simp_all
    from mem ss have "a \<in> {netZeroGross72, noNetScore, netZeroGross70}"
      "c \<in> {netZeroGross72, noNetScore, netZeroGross70}" by auto
    with ids have ac: "a = netZeroGross72" "c = netZeroGross70" by auto
    from s ss ac show False by (simp add: orZero_def breakTie_def)
  qed
  show ?thesis
    apply (intro conjI)
              apply simp
             apply simp
            apply simp
           apply (simp add: breakTie_def)
          apply (simp add: compareStraight_def orZero_def)
         apply (simp add: compareStraight_def orZero_def)
        apply (simp add: compareStraight_def breakTie_def)
       apply (rule ev)
      apply (rule no)
     apply (simp add: rankTeams_def sortBy_def compareStraight_def breakTie_def orZero_def)
    apply (simp add: rankTeams_def sortBy_def compareStraight_def breakTie_def orZero_def)
    done
qed

section \<open>Properties of the scorecard interpreter\<close>

subsection \<open>Ranges, indices and lengths\<close>

lemma canonical_range: "m \<in> set canonicalCounts \<Longrightarrow> 9 \<le> m \<and> m \<le> 18"
  by (auto simp: canonicalCounts_def)

lemma inferLoop_range: "9 \<le> b \<Longrightarrow> b \<le> 18 \<Longrightarrow> 9 \<le> inferLoop b ls \<and> inferLoop b ls \<le> 18"
proof (induction ls arbitrary: b)
  case Nil
  then show ?case by simp
next
  case (Cons l ls)
  then show ?case
    by (auto simp: Let_def dest: canonical_range split: option.splits)
qed

lemma inferHoleCount_range: "9 \<le> inferHoleCount ls \<and> inferHoleCount ls \<le> 18"
  unfolding inferHoleCount_def by (rule inferLoop_range) simp_all

lemma detectHoleCount_range: "9 \<le> detectHoleCount rows \<and> detectHoleCount rows \<le> 18"
  by (induction rows) (auto simp: Let_def dest: canonical_range split: option.splits)

lemma scanLine_index:
  "p \<in> set (scanLine ls acc i) \<Longrightarrow> p \<in> set acc \<or> lineIndex p = i"
  by (auto simp: scanLine_def Let_def split: if_splits)

lemma foldl_scanLine_index:
  "p \<in> set (foldl (scanLine ls) acc is) \<Longrightarrow> p \<in> set acc \<or> lineIndex p \<in> set is"
proof (induction "is" arbitrary: acc)
  case Nil
  then show ?case by simp
next
  case (Cons i "is")
  from Cons.IH [of "scanLine ls acc i"] Cons.prems
  have "p \<in> set (scanLine ls acc i) \<or> lineIndex p \<in> set is" by simp
  then show ?case using scanLine_index [of p ls acc i] by auto
qed

lemma findPlayers_index: "p \<in> set (findPlayers ls) \<Longrightarrow> lineIndex p < length ls"
  using foldl_scanLine_index [of p ls "[]" "[0 ..< length ls]"] by (simp add: findPlayers_def)

lemma scoreLoop_in_range:
  "\<forall>i\<in>set is. i < length ls \<Longrightarrow> \<exists>s. scoreLoop ls is t sc = Inr s"
proof (induction "is" arbitrary: sc)
  case Nil
  show ?case by simp
next
  case (Cons i "is")
  then show ?case by (simp add: jsIndex_def)
qed

lemma extractScoresForPlayer_length:
  assumes "0 \<le> t" and "e \<le> length ls"
  shows "\<exists>s. extractScoresForPlayer ls b e t = Inr s \<and> int (length s) = t"
proof -
  have "\<forall>i\<in>set [b + 1 ..< e]. i < length ls" using assms(2) by auto
  from scoreLoop_in_range [OF this] obtain sc where sc: "scoreLoop ls [b + 1 ..< e] t [] = Inr sc"
    by blast
  show ?thesis
    unfolding extractScoresForPlayer_def sc using assms(1) by (auto simp: Let_def)
qed

lemma extractScoresForPlayer_result_length:
  assumes "0 \<le> t" and "extractScoresForPlayer ls b e t = Inr s"
  shows "int (length s) = t"
  using assms
  by (auto simp: extractScoresForPlayer_def Let_def split: sum.splits if_splits)

lemma collectResults_all:
  assumes "\<forall>x\<in>set xs. \<exists>v. f x = Inr v \<and> P v"
  shows "\<exists>vs. collectResults (map f xs) = Inr vs \<and> length vs = length xs \<and> (\<forall>v\<in>set vs. P v)"
  using assms
proof (induction xs)
  case Nil
  show ?case by simp
next
  case (Cons x xs)
  from Cons.prems obtain v where v: "f x = Inr v" "P v" by auto
  from Cons obtain vs where vs: "collectResults (map f xs) = Inr vs" "length vs = length xs"
    "\<forall>v\<in>set vs. P v" by auto
  show ?case by (simp add: v vs)
qed

lemma sliceTo_length: "0 \<le> e \<Longrightarrow> e \<le> int (length xs) \<Longrightarrow> int (length (sliceTo xs e)) = e"
  by (simp add: sliceTo_def)

lemma extractScoresFromRow_length:
  "0 \<le> h \<Longrightarrow> int (length (extractScoresFromRow r h)) = h"
  by (simp add: extractScoresFromRow_def Let_def sliceTo_def)

lemma parseScorecard_no_players:
  "findPlayers (textLines text) = [] \<Longrightarrow>
   parseScorecard now text =
     Inr \<lparr>playerNames = [], playerHandicaps = [], ocrHoleScores = [],
          detectedHoleCount = 0, ocrTeamName = Some (generateTeamName now),
          confidence = 2 / 10\<rparr>"
  by (simp add: parseScorecard_def Let_def)

lemma playerScoreRow_length:
  assumes "0 \<le> h"
  shows "\<exists>v. playerScoreRow ls (findPlayers ls) h idx = Inr v \<and> int (length v) = h"
proof -
  have e: "(if idx + 1 < length (findPlayers ls) then lineIndex (findPlayers ls ! (idx + 1))
            else length ls) \<le> length ls"
    using findPlayers_index [of "findPlayers ls ! (idx + 1)" ls] by (auto simp: less_imp_le)
  from extractScoresForPlayer_length [OF assms e]
  show ?thesis by (simp add: playerScoreRow_def Let_def)
qed

lemma parseScorecard_players:
  assumes ne: "findPlayers (textLines text) \<noteq> []"
  shows "\<exists>r. parseScorecard now text = Inr r \<and>
             (\<forall>s\<in>set (ocrHoleScores r). int (length s) = detectedHoleCount r) \<and>
             length (ocrHoleScores r) = length (playerNames r) \<and>
             playerNames r = map playerName (findPlayers (textLines text)) \<and>
             detectedHoleCount r = inferHoleCount (textLines text)"
proof -
  let ?ls = "textLines text"
  let ?found = "findPlayers ?ls"
  let ?h = "inferHoleCount ?ls"
  have h0: "0 \<le> ?h" using inferHoleCount_range [of ?ls] by simp
  have "\<forall>idx\<in>set [0 ..< length ?found].
          \<exists>v. playerScoreRow ?ls ?found ?h idx = Inr v \<and> int (length v) = ?h"
    using playerScoreRow_length [OF h0] by blast
  from collectResults_all [of "[0 ..< length ?found]" "playerScoreRow ?ls ?found ?h"
      "\<lambda>v. int (length v) = ?h", OF this]
  obtain vs where vs: "collectResults (map (playerScoreRow ?ls ?found ?h) [0 ..< length ?found]) = Inr vs"
    and len: "length vs = length ?found" and all: "\<forall>v\<in>set vs. int (length v) = ?h"
    by auto
  from ne have "length ?found \<noteq> 0" by simp
  then show ?thesis
    using len all by (simp add: parseScorecard_def Let_def vs)
qed

lemma parseScorecard_returns: "\<exists>r. parseScorecard now text = Inr r"
proof (cases "findPlayers (textLines text) = []")
  case True
  from parseScorecard_no_players [OF True] show ?thesis by blast
next
  case False
  from parseScorecard_players [OF False] show ?thesis by blast
qed

lemma parseScorecard_clock:
  "parseScorecard now' text =
     map_sum id (\<lambda>r. r\<lparr>ocrTeamName := Some (generateTeamName now')\<rparr>) (parseScorecard now text)"
  by (simp add: parseScorecard_def Let_def split: sum.splits)

lemma parseScorecard_teamName:
  "parseScorecard now text = Inr r \<Longrightarrow> ocrTeamName r = Some (generateTeamName now)"
  by (auto simp: parseScorecard_def Let_def split: sum.splits if_splits)

lemma parseScorecard_names:
  "parseScorecard now text = Inr r \<Longrightarrow> playerNames r = map playerName (findPlayers (textLines text))"
  by (auto simp: parseScorecard_def Let_def split: sum.splits if_splits)

lemma fallback_rows:
  "\<forall>s\<in>set (ocrHoleScores (parseScorecard_fallback now text)).
      int (length s) = detectedHoleCount (parseScorecard_fallback now text)"
  by (simp add: parseScorecard_fallback_def Let_def)

lemma fallback_row_count:
  "length (ocrHoleScores (parseScorecard_fallback now text)) =
   length (playerNames (parseScorecard_fallback now text))"
  by (simp add: parseScorecard_fallback_def Let_def)

lemma boundingBoxes_rows:
  "\<forall>s\<in>set (ocrHoleScores (parseScorecardWithBoundingBoxes now anns text)).
      int (length s) = detectedHoleCount (parseScorecardWithBoundingBoxes now anns text)"
proof -
  have "0 \<le> detectHoleCount (groupByRows anns 20)"
    using detectHoleCount_range [of "groupByRows anns 20"] by simp
  then show ?thesis
    by (simp add: parseScorecardWithBoundingBoxes_def Let_def extractScoresFromRow_length)
qed

lemma boundingBoxes_row_count:
  "length (ocrHoleScores (parseScorecardWithBoundingBoxes now anns text)) =
   length (playerNames (parseScorecardWithBoundingBoxes now anns text))"
  by (simp add: parseScorecardWithBoundingBoxes_def Let_def)

lemma parseScorecard_rows:
  "\<exists>r. parseScorecard now text = Inr r \<and>
       (\<forall>s\<in>set (ocrHoleScores r). int (length s) = detectedHoleCount r) \<and>
       length (ocrHoleScores r) = length (playerNames r)"
proof (cases "findPlayers (textLines text) = []")
  case True
  from parseScorecard_no_players [OF True, of now] show ?thesis by simp
next
  case False
  from parseScorecard_players [OF False, of now] show ?thesis by blast
qed

lemma extractScoresForPlayer_padded:
  assumes t: "0 \<le> target"
      and x: "extractScoresForPlayer allLines startIndex endIndex target = Inr scores"
  shows "int (length scores) = target \<and>
          (\<exists>found. scoreLoop allLines [startIndex + 1 ..< endIndex] target [] = Inr found \<and>
             scores = take (nat target) (found @ replicate (nat target - length found) 0))"
proof (intro conjI)
  from t x show "int (length scores) = target"
    by (auto intro: extractScoresForPlayer_result_length)
  from x obtain found where found: "scoreLoop allLines [startIndex + 1 ..< endIndex] target [] = Inr found"
    by (auto simp: extractScoresForPlayer_def split: sum.splits)
  have n: "nat (target - int (length found)) = nat target - length found"
    using t by simp
  from t x have "scores = take (nat target) (found @ replicate (nat target - length found) 0)"
    unfolding extractScoresForPlayer_def found
    by (auto simp: Let_def n split: if_splits)
  with found show "\<exists>found. scoreLoop allLines [startIndex + 1 ..< endIndex] target [] = Inr found \<and>
             scores = take (nat target) (found @ replicate (nat target - length found) 0)"
    by blast
qed

lemma extractScoresFromRow_padded:
  assumes t: "0 \<le> target"
  shows "int (length (extractScoresFromRow r target)) = target \<and>
          extractScoresFromRow r target =
            take (nat target)
              (rowNumbers 2 12 r @ replicate (nat target - length (rowNumbers 2 12 r)) 0)"
proof (intro conjI)
  from t show "int (length (extractScoresFromRow r target)) = target"
    by (simp add: extractScoresFromRow_length)
  have n: "nat (target - int (length (rowNumbers 2 12 r))) = nat target - length (rowNumbers 2 12 r)"
    using t by simp
  from t show "extractScoresFromRow r target =
            take (nat target)
              (rowNumbers 2 12 r @ replicate (nat target - length (rowNumbers 2 12 r)) 0)"
    by (simp add: extractScoresFromRow_def Let_def sliceTo_def n)
qed

subsection \<open>The interpreters on the example payloads\<close>

lemma sampleCard_parse:
  "parseScorecard now sampleCard =
     Inr \<lparr>playerNames = [''J.DOE''], playerHandicaps = [12],
          ocrHoleScores = [[4, 5, 3, 0, 0, 0, 0, 0, 0, 0, 0, 0, 0, 0, 0, 0, 0, 0]],
          detectedHoleCount = 18, ocrTeamName = Some (generateTeamName now),
          confidence = 6 / 10\<rparr>"
proof -
  have ls: "textLines sampleCard = [''Name J.DOE'', ''Hcap 12'', ''4 5 3'']"
    by code_simp
  have found: "findPlayers [''Name J.DOE'', ''Hcap 12'', ''4 5 3''] =
                 [\<lparr>playerName = ''J.DOE'', playerHandicap = 12, lineIndex = 0\<rparr>]"
    by code_simp
  have holes: "inferHoleCount [''Name J.DOE'', ''Hcap 12'', ''4 5 3''] = 18"
    by code_simp
  have scores: "playerScoreRow [''Name J.DOE'', ''Hcap 12'', ''4 5 3'']
                  [\<lparr>playerName = ''J.DOE'', playerHandicap = 12, lineIndex = 0\<rparr>] 18 0 =
                Inr [4, 5, 3, 0, 0, 0, 0, 0, 0, 0, 0, 0, 0, 0, 0, 0, 0, 0]"
    by code_simp
  have conf: "estimateConfidence (Suc 0) [[4, 5, 3, 0, 0, 0, 0, 0, 0, 0, 0, 0, 0, 0, 0, 0, 0, 0]] = 6 / 10"
    by code_simp
  show ?thesis
    unfolding parseScorecard_def Let_def ls found holes
    by (simp add: scores conf del: divide_eq_eq_numeral1)
qed

lemma teamName_5: "generateTeamName 5 = ''CORK''"
  by code_simp

lemma teamName_0: "generateTeamName 0 = ''ANTRIM''"
  by code_simp

lemma teamName_1: "generateTeamName 1 = ''ARMAGH''"
  by code_simp

lemma teamName_33: "generateTeamName 33 = ''ARMAGH''"
  by code_simp

lemma headerText_no_players: "findPlayers (textLines ''Hole 1 2 3'') = []"
  by code_simp

lemma headerText_fallback: "playerNames (parseScorecard_fallback now ''Hole 1 2 3'') = []"
proof -
  have "List.map_filter (fallbackPlayer (textLines ''Hole 1 2 3''))
          [0 ..< length (textLines ''Hole 1 2 3'')] = []"
    by code_simp
  then show ?thesis by (simp add: parseScorecard_fallback_def Let_def)
qed

lemma headerOnly_rows: "groupByRows headerOnly 20 = [headerOnly]"
  by code_simp

lemma headerOnly_no_player_rows: "findPlayerRows [headerOnly] = []"
  by code_simp

lemma headerOnly_holes: "detectHoleCount [headerOnly] = 18"
  by code_simp

lemma headerOnly_parse:
  "parseScorecardWithBoundingBoxes now headerOnly payload =
     \<lparr>playerNames = [], playerHandicaps = [], ocrHoleScores = [],
      detectedHoleCount = 18, ocrTeamName = Some (generateTeamName now), confidence = 4 / 10\<rparr>"
  unfolding parseScorecardWithBoundingBoxes_def Let_def headerOnly_rows headerOnly_no_player_rows
    headerOnly_holes
  by (simp add: hasRealScores_def)

lemma emptyText_lines: "textLines [] = []"
  by (simp add: textLines_def trim_def)

lemma emptyText_fallback:
  "parseScorecard_fallback now [] =
     \<lparr>playerNames = [], playerHandicaps = [], ocrHoleScores = [],
      detectedHoleCount = 18, ocrTeamName = Some (generateTeamName now), confidence = 2 / 10\<rparr>"
  by (simp add: parseScorecard_fallback_def Let_def emptyText_lines List.map_filter_simps)

lemma twoPlayerCard_parse:
  "parseScorecard now twoPlayerCard =
     Inr \<lparr>playerNames = [''A.BELL'', ''C.DUFF''], playerHandicaps = [12, 7],
          ocrHoleScores = [[4, 5, 3, 4, 5, 3, 4, 5, 3], [6, 2, 0, 0, 0, 0, 0, 0, 0]],
          detectedHoleCount = 9, ocrTeamName = Some (generateTeamName now),
          confidence = 65 / 100\<rparr>"
proof -
  let ?ls = "[''1 2 3 4 5 6 7 8 9'', ''Name A.BELL'', ''Hcap 12'', ''4 5 3 4 5 3 4 5 3 6'',
              ''Name C.DUFF'', ''Hcap 7'', ''6 2'']"
  let ?found = "[\<lparr>playerName = ''A.BELL'', playerHandicap = 12, lineIndex = 1\<rparr>,
                 \<lparr>playerName = ''C.DUFF'', playerHandicap = 7, lineIndex = 4\<rparr>]"
  have ls: "textLines twoPlayerCard = ?ls"
    by code_simp
  have found: "findPlayers ?ls = ?found"
    by code_simp
  have holes: "inferHoleCount ?ls = 9"
    by code_simp
  have rows: "collectResults (map (playerScoreRow ?ls ?found 9) [0 ..< length ?found]) =
                Inr [[4, 5, 3, 4, 5, 3, 4, 5, 3], [6, 2, 0, 0, 0, 0, 0, 0, 0]]"
    by code_simp
  have conf: "estimateConfidence (Suc (Suc 0))
                [[4, 5, 3, 4, 5, 3, 4, 5, 3], [6, 2, 0, 0, 0, 0, 0, 0, 0]] = 65 / 100"
    by code_simp
  show ?thesis
    unfolding parseScorecard_def Let_def ls found holes rows
    by (simp add: conf del: divide_eq_eq_numeral1)
qed

lemma twoPlayerBoxes_parse:
  "parseScorecardWithBoundingBoxes now twoPlayerBoxes payload =
     \<lparr>playerNames = [''ANN'', ''CY''], playerHandicaps = [12, 7],
      ocrHoleScores = [[12, 4, 5, 3, 4, 5, 3, 4, 5], [7, 6, 2, 0, 0, 0, 0, 0, 0]],
      detectedHoleCount = 9, ocrTeamName = Some (generateTeamName now), confidence = 6 / 10\<rparr>"
proof -
  let ?r1 = "boxRow 10 [''1'', ''2'', ''3'', ''4'', ''6'', ''7'', ''8'', ''9'']"
  let ?r2 = "boxRow 50 [''ANN'', ''12'', ''4'', ''5'', ''3'', ''4'', ''5'', ''3'', ''4'', ''5'', ''3'', ''6'']"
  let ?r3 = "boxRow 100 [''CY'', ''7'', ''6'', ''2'']"
  have rows: "groupByRows twoPlayerBoxes 20 = [?r1, ?r2, ?r3]"
    by code_simp
  have prow: "findPlayerRows [?r1, ?r2, ?r3] = [?r2, ?r3]"
    by code_simp
  have holes: "detectHoleCount [?r1, ?r2, ?r3] = 9"
    by code_simp
  have names: "map rowName (map extractPlayer [?r2, ?r3]) = [''ANN'', ''CY'']"
    by code_simp
  have hcps: "map rowHandicap (map extractPlayer [?r2, ?r3]) = [12, 7]"
    by code_simp
  have scores: "map (\<lambda>player. extractScoresFromRow (row player) 9) (map extractPlayer [?r2, ?r3]) =
                  [[12, 4, 5, 3, 4, 5, 3, 4, 5], [7, 6, 2, 0, 0, 0, 0, 0, 0]]"
    by code_simp
  have real: "hasRealScores [[12, 4, 5, 3, 4, 5, 3, 4, 5], [7, 6, 2, 0, 0, 0, 0, 0, 0]]"
    by code_simp
  show ?thesis
    unfolding parseScorecardWithBoundingBoxes_def Let_def rows prow holes names hcps scores
    by (simp add: real)
qed

lemma fallbackCard_parse:
  "parseScorecard_fallback now fallbackCard =
     \<lparr>playerNames = [''ANN BELL'', ''CY DUFF''], playerHandicaps = [12, 7],
      ocrHoleScores = [replicate 18 0, replicate 18 0],
      detectedHoleCount = 18, ocrTeamName = Some (generateTeamName now), confidence = 4 / 10\<rparr>"
proof -
  have found: "List.map_filter (fallbackPlayer (textLines fallbackCard))
          [0 ..< length (textLines fallbackCard)] = [(''ANN BELL'', 12), (''CY DUFF'', 7)]"
    by code_simp
  show ?thesis
    unfolding parseScorecard_fallback_def Let_def found
    by simp
qed

subsection \<open>Hole count\<close>

lemma inferLoop_skip:
  assumes "\<not> canonicalLine p"
  shows "\<exists>b'. inferLoop b (p # rest) = inferLoop b' rest"
  using assms
  by (auto simp: canonicalLine_def qualifies_def lineMax_def Let_def split: option.splits)

lemma inferLoop_first_canonical:
  assumes "\<forall>p\<in>set pre. \<not> canonicalLine p" and "canonicalLine l"
  shows "lineMax l = Some (inferLoop b (pre @ l # post))"
  using assms(1)
proof (induction pre arbitrary: b)
  case Nil
  from assms(2) show ?case
    by (auto simp: canonicalLine_def qualifies_def lineMax_def Let_def split: option.splits)
next
  case (Cons p pre)
  from Cons.prems have rest: "\<forall>p\<in>set pre. \<not> canonicalLine p" and p: "\<not> canonicalLine p"
    by simp_all
  from inferLoop_skip [OF p] obtain b' where
    "inferLoop b (p # pre @ l # post) = inferLoop b' (pre @ l # post)" by blast
  with Cons.IH [OF rest, of b'] show ?case by simp
qed

lemma line16: "qualifies lineTo16 \<and> lineMax lineTo16 = Some 16"
  by code_simp

lemma line17: "qualifies lineTo17 \<and> lineMax lineTo17 = Some 17"
  by code_simp

lemma line18: "qualifies lineTo18 \<and> lineMax lineTo18 = Some 18"
  by code_simp

text \<open>
  Claim C4, as amended. The line-based detector \<open>inferHoleCount\<close> returns the maximum of
  the first qualifying line (at least 6 number tokens) whose maximum is one of 9, 13,
  16, 18, whenever there is such a line anywhere in the input, whatever non-canonical
  maxima earlier qualifying lines had; the value returned is then canonical. So a later
  line with maximum 18 gives 18 after an earlier line that suggested 17, and an earlier
  qualifying line with maximum exactly 16 gives 16 (the scan stops at the first exact
  match).
\<close>

theorem inferHoleCount_first_canonical:
  "((\<forall>p\<in>set pre. \<not> canonicalLine p) \<and> canonicalLine l
      \<longrightarrow> lineMax l = Some (inferHoleCount (pre @ l # post))) \<and>
   ((\<exists>l\<in>set ls. canonicalLine l)
      \<longrightarrow> inferHoleCount ls \<in> set canonicalCounts \<and>
          (\<exists>l\<in>set ls. canonicalLine l \<and> lineMax l = Some (inferHoleCount ls)))"
proof (intro conjI impI)
  assume a: "(\<forall>p\<in>set pre. \<not> canonicalLine p) \<and> canonicalLine l"
  then show "lineMax l = Some (inferHoleCount (pre @ l # post))"
    unfolding inferHoleCount_def by (intro inferLoop_first_canonical) simp_all
next
  assume "\<exists>l\<in>set ls. canonicalLine l"
  from split_list_first_prop [OF this]
  obtain ys x zs where ls: "ls = ys @ x # zs" and x: "canonicalLine x"
    and ys: "\<forall>y\<in>set ys. \<not> canonicalLine y" by blast
  have r: "lineMax x = Some (inferHoleCount ls)"
    unfolding inferHoleCount_def ls by (rule inferLoop_first_canonical [OF ys x])
  from r x show "inferHoleCount ls \<in> set canonicalCounts"
    by (simp add: canonicalLine_def)
  from r x ls show "\<exists>l\<in>set ls. canonicalLine l \<and> lineMax l = Some (inferHoleCount ls)"
    by auto
qed

theorem inferHoleCount_first_canonical_witness:
  "qualifies lineTo17 \<and> lineMax lineTo17 = Some 17 \<and> \<not> canonicalLine lineTo17 \<and>
   canonicalLine lineTo18 \<and> lineMax lineTo18 = Some 18 \<and>
   inferHoleCount [lineTo17, lineTo18] = 18 \<and>
   inferHoleCount [lineTo17, lineTo18] \<in> set canonicalCounts"
proof -
  have n17: "\<not> canonicalLine lineTo17"
    using line17 by (simp add: canonicalLine_def canonicalCounts_def)
  have c18: "canonicalLine lineTo18"
    using line18 by (simp add: canonicalLine_def canonicalCounts_def)
  from n17 have pre: "\<forall>p\<in>set [lineTo17]. \<not> canonicalLine p" by simp
  from inferHoleCount_first_canonical [of "[lineTo17]" lineTo18 "[]"] pre c18 line18
  have "inferHoleCount [lineTo17, lineTo18] = 18" by simp
  with line17 line18 n17 c18 show ?thesis by (simp add: canonicalCounts_def)
qed

text \<open>
  Claim C4 as stated fails: with a first line running to 16 and a second running to 18,
  \<open>inferHoleCount\<close> returns 16, not 18. (In the bounding-box module, \<open>detectHoleCount\<close>
  returns the first row maximum in \<open>[9, 18]\<close>, canonical or not: 10 here although a later
  row has maximum 18.)
\<close>

theorem hole_count_earlier_row_wins:
  "canonicalLine lineTo16 \<and> lineMax lineTo16 = Some 16 \<and>
   canonicalLine lineTo18 \<and> lineMax lineTo18 = Some 18 \<and>
   inferHoleCount [lineTo16, lineTo18] = 16 \<and>
   rowQualifies (mkRow [''5'', ''6'', ''7'', ''8'', ''9'', ''10'']) \<and>
   rowMax (mkRow [''5'', ''6'', ''7'', ''8'', ''9'', ''10'']) = Some 10 \<and>
   rowQualifies (mkRow [''13'', ''14'', ''15'', ''16'', ''17'', ''18'']) \<and>
   rowMax (mkRow [''13'', ''14'', ''15'', ''16'', ''17'', ''18'']) = Some 18 \<and>
   detectHoleCount [mkRow [''5'', ''6'', ''7'', ''8'', ''9'', ''10''],
                    mkRow [''13'', ''14'', ''15'', ''16'', ''17'', ''18'']] = 10"
proof -
  have c16: "canonicalLine lineTo16"
    using line16 by (simp add: canonicalLine_def canonicalCounts_def)
  have c18: "canonicalLine lineTo18"
    using line18 by (simp add: canonicalLine_def canonicalCounts_def)
  have a: "inferHoleCount [lineTo16, lineTo18] = 16" by code_simp
  have b: "rowQualifies (mkRow [''5'', ''6'', ''7'', ''8'', ''9'', ''10'']) \<and>
   rowMax (mkRow [''5'', ''6'', ''7'', ''8'', ''9'', ''10'']) = Some 10 \<and>
   rowQualifies (mkRow [''13'', ''14'', ''15'', ''16'', ''17'', ''18'']) \<and>
   rowMax (mkRow [''13'', ''14'', ''15'', ''16'', ''17'', ''18'']) = Some 18" by code_simp
  have c: "detectHoleCount [mkRow [''5'', ''6'', ''7'', ''8'', ''9'', ''10''],
                    mkRow [''13'', ''14'', ''15'', ''16'', ''17'', ''18'']] = 10" by code_simp
  from line16 line18 c16 c18 a b c show ?thesis by simp
qed

subsection \<open>Score rows\<close>

text \<open>
  Claim C5. Every interpretation result has one score row for each parsed player, and
  every score row has exactly as many entries as the detected hole count: for the
  line-based interpreter (which always returns a result), for the bounding-box parser,
  for the fallback parser and for the choice between the two. The row functions
  themselves return, for every non-negative \<open>target\<close>, the scores found, padded with 0
  and cut to exactly \<open>target\<close> entries, however many score tokens the text holds.
\<close>

theorem score_rows_match_hole_count:
  "(\<exists>r. parseScorecard now payload = Inr r \<and>
        length (ocrHoleScores r) = length (playerNames r) \<and>
        (\<forall>s\<in>set (ocrHoleScores r). int (length s) = detectedHoleCount r)) \<and>
   (length (ocrHoleScores (parseScorecardWithBoundingBoxes now anns payload)) =
      length (playerNames (parseScorecardWithBoundingBoxes now anns payload)) \<and>
    (\<forall>s\<in>set (ocrHoleScores (parseScorecardWithBoundingBoxes now anns payload)).
        int (length s) = detectedHoleCount (parseScorecardWithBoundingBoxes now anns payload))) \<and>
   (length (ocrHoleScores (parseScorecard_fallback now payload)) =
      length (playerNames (parseScorecard_fallback now payload)) \<and>
    (\<forall>s\<in>set (ocrHoleScores (parseScorecard_fallback now payload)).
        int (length s) = detectedHoleCount (parseScorecard_fallback now payload))) \<and>
   (length (ocrHoleScores (interpretPayload now anns payload)) =
      length (playerNames (interpretPayload now anns payload)) \<and>
    (\<forall>s\<in>set (ocrHoleScores (interpretPayload now anns payload)).
        int (length s) = detectedHoleCount (interpretPayload now anns payload))) \<and>
   (0 \<le> target \<and> extractScoresForPlayer allLines startIndex endIndex target = Inr scores
      \<longrightarrow> int (length scores) = target \<and>
          (\<exists>found. scoreLoop allLines [startIndex + 1 ..< endIndex] target [] = Inr found \<and>
             scores = take (nat target) (found @ replicate (nat target - length found) 0))) \<and>
   (0 \<le> target
      \<longrightarrow> int (length (extractScoresFromRow r target)) = target \<and>
          extractScoresFromRow r target =
            take (nat target)
              (rowNumbers 2 12 r @ replicate (nat target - length (rowNumbers 2 12 r)) 0))"
proof -
  from parseScorecard_rows [of now payload]
  have a: "\<exists>r. parseScorecard now payload = Inr r \<and>
        length (ocrHoleScores r) = length (playerNames r) \<and>
        (\<forall>s\<in>set (ocrHoleScores r). int (length s) = detectedHoleCount r)" by blast
  note b = conjI [OF boundingBoxes_row_count [of now anns payload] boundingBoxes_rows [of now anns payload]]
  note c = conjI [OF fallback_row_count [of now payload] fallback_rows [of now payload]]
  have d: "length (ocrHoleScores (interpretPayload now anns payload)) =
      length (playerNames (interpretPayload now anns payload)) \<and>
    (\<forall>s\<in>set (ocrHoleScores (interpretPayload now anns payload)).
        int (length s) = detectedHoleCount (interpretPayload now anns payload))"
  proof (cases "length anns > 0")
    case True
    then have "interpretPayload now anns payload = parseScorecardWithBoundingBoxes now anns payload"
      by (simp add: interpretPayload_def)
    with b show ?thesis by simp
  next
    case False
    then have "interpretPayload now anns payload = parseScorecard_fallback now payload"
      by (simp add: interpretPayload_def)
    with c show ?thesis by simp
  qed
  have e: "0 \<le> target \<and> extractScoresForPlayer allLines startIndex endIndex target = Inr scores
      \<longrightarrow> int (length scores) = target \<and>
          (\<exists>found. scoreLoop allLines [startIndex + 1 ..< endIndex] target [] = Inr found \<and>
             scores = take (nat target) (found @ replicate (nat target - length found) 0))"
    using extractScoresForPlayer_padded [of target allLines startIndex endIndex scores] by blast
  have f: "0 \<le> target
      \<longrightarrow> int (length (extractScoresFromRow r target)) = target \<and>
          extractScoresFromRow r target =
            take (nat target)
              (rowNumbers 2 12 r @ replicate (nat target - length (rowNumbers 2 12 r)) 0)"
    using extractScoresFromRow_padded [of target r] by blast
  show ?thesis
    apply (intro conjI)
             apply (rule a)
            apply (rule b [THEN conjunct1])
           apply (rule b [THEN conjunct2])
          apply (rule c [THEN conjunct1])
         apply (rule c [THEN conjunct2])
        apply (rule d [THEN conjunct1])
       apply (rule d [THEN conjunct2])
      apply (rule e)
     apply (rule f)
    done
qed

theorem score_rows_match_hole_count_witness:
  "parseScorecard 5 twoPlayerCard =
     Inr \<lparr>playerNames = [''A.BELL'', ''C.DUFF''], playerHandicaps = [12, 7],
          ocrHoleScores = [[4, 5, 3, 4, 5, 3, 4, 5, 3], [6, 2, 0, 0, 0, 0, 0, 0, 0]],
          detectedHoleCount = 9, ocrTeamName = Some ''CORK'', confidence = 65 / 100\<rparr> \<and>
   (\<exists>r. parseScorecard 5 twoPlayerCard = Inr r \<and>
        length (playerNames r) = 2 \<and>
        length (ocrHoleScores r) = length (playerNames r) \<and>
        list_all (\<lambda>s. int (length s) = detectedHoleCount r) (ocrHoleScores r)) \<and>
   parseScorecardWithBoundingBoxes 5 twoPlayerBoxes twoPlayerCard =
     \<lparr>playerNames = [''ANN'', ''CY''], playerHandicaps = [12, 7],
      ocrHoleScores = [[12, 4, 5, 3, 4, 5, 3, 4, 5], [7, 6, 2, 0, 0, 0, 0, 0, 0]],
      detectedHoleCount = 9, ocrTeamName = Some ''CORK'', confidence = 6 / 10\<rparr> \<and>
   length (ocrHoleScores (parseScorecardWithBoundingBoxes 5 twoPlayerBoxes twoPlayerCard)) =
     length (playerNames (parseScorecardWithBoundingBoxes 5 twoPlayerBoxes twoPlayerCard)) \<and>
   list_all (\<lambda>s. int (length s) =
                detectedHoleCount (parseScorecardWithBoundingBoxes 5 twoPlayerBoxes twoPlayerCard))
     (ocrHoleScores (parseScorecardWithBoundingBoxes 5 twoPlayerBoxes twoPlayerCard)) \<and>
   parseScorecard_fallback 5 fallbackCard =
     \<lparr>playerNames = [''ANN BELL'', ''CY DUFF''], playerHandicaps = [12, 7],
      ocrHoleScores = [replicate 18 0, replicate 18 0],
      detectedHoleCount = 18, ocrTeamName = Some ''CORK'', confidence = 4 / 10\<rparr> \<and>
   length (ocrHoleScores (parseScorecard_fallback 5 fallbackCard)) =
     length (playerNames (parseScorecard_fallback 5 fallbackCard)) \<and>
   list_all (\<lambda>s. int (length s) = detectedHoleCount (parseScorecard_fallback 5 fallbackCard))
     (ocrHoleScores (parseScorecard_fallback 5 fallbackCard)) \<and>
   list_all (\<lambda>s. int (length s) = detectedHoleCount (interpretPayload 5 [] fallbackCard))
     (ocrHoleScores (interpretPayload 5 [] fallbackCard)) \<and>
   extractScoresForPlayer
     [''1 2 3 4 5 6 7 8 9'', ''Name A.BELL'', ''Hcap 12'', ''4 5 3 4 5 3 4 5 3 6'',
      ''Name C.DUFF'', ''Hcap 7'', ''6 2''] 1 4 9 = Inr [4, 5, 3, 4, 5, 3, 4, 5, 3] \<and>
   int (length [4, 5, 3, 4, 5, 3, 4, 5, 3 :: int]) = 9 \<and>
   extractScoresFromRow (boxRow 100 [''CY'', ''7'', ''6'', ''2'']) 9 = [7, 6, 2, 0, 0, 0, 0, 0, 0] \<and>
   int (length (extractScoresFromRow (boxRow 100 [''CY'', ''7'', ''6'', ''2'']) 9)) = 9"
proof -
  let ?ls = "[''1 2 3 4 5 6 7 8 9'', ''Name A.BELL'', ''Hcap 12'', ''4 5 3 4 5 3 4 5 3 6'',
              ''Name C.DUFF'', ''Hcap 7'', ''6 2'']"
  let ?row = "boxRow 100 [''CY'', ''7'', ''6'', ''2'']"
  note t = score_rows_match_hole_count [where now = 5 and payload = twoPlayerCard
      and anns = twoPlayerBoxes and target = 9 and allLines = ?ls and startIndex = 1
      and endIndex = 4 and scores = "[4, 5, 3, 4, 5, 3, 4, 5, 3]" and r = ?row]
  note u = score_rows_match_hole_count [where now = 5 and payload = fallbackCard and anns = "[]"]
  have ev1: "parseScorecard 5 twoPlayerCard =
     Inr \<lparr>playerNames = [''A.BELL'', ''C.DUFF''], playerHandicaps = [12, 7],
          ocrHoleScores = [[4, 5, 3, 4, 5, 3, 4, 5, 3], [6, 2, 0, 0, 0, 0, 0, 0, 0]],
          detectedHoleCount = 9, ocrTeamName = Some ''CORK'', confidence = 65 / 100\<rparr>"
    by (simp only: twoPlayerCard_parse teamName_5)
  from t [THEN conjunct1]
  obtain r where r: "parseScorecard 5 twoPlayerCard = Inr r"
    and n: "length (ocrHoleScores r) = length (playerNames r)"
    and rows: "\<forall>s\<in>set (ocrHoleScores r). int (length s) = detectedHoleCount r"
    by (elim exE conjE)
  from r ev1 have two: "length (playerNames r) = 2" by auto
  from rows have "list_all (\<lambda>s. int (length s) = detectedHoleCount r) (ocrHoleScores r)"
    by (simp only: list_all_iff)
  with r two n have a: "\<exists>r. parseScorecard 5 twoPlayerCard = Inr r \<and>
        length (playerNames r) = 2 \<and>
        length (ocrHoleScores r) = length (playerNames r) \<and>
        list_all (\<lambda>s. int (length s) = detectedHoleCount r) (ocrHoleScores r)"
    by blast
  have ev2: "parseScorecardWithBoundingBoxes 5 twoPlayerBoxes twoPlayerCard =
     \<lparr>playerNames = [''ANN'', ''CY''], playerHandicaps = [12, 7],
      ocrHoleScores = [[12, 4, 5, 3, 4, 5, 3, 4, 5], [7, 6, 2, 0, 0, 0, 0, 0, 0]],
      detectedHoleCount = 9, ocrTeamName = Some ''CORK'', confidence = 6 / 10\<rparr>"
    by (simp only: twoPlayerBoxes_parse teamName_5)
  note b1 = t [THEN conjunct2, THEN conjunct1, THEN conjunct1]
  note b2 = t [THEN conjunct2, THEN conjunct1, THEN conjunct2, folded list_all_iff]
  have ev3: "parseScorecard_fallback 5 fallbackCard =
     \<lparr>playerNames = [''ANN BELL'', ''CY DUFF''], playerHandicaps = [12, 7],
      ocrHoleScores = [replicate 18 0, replicate 18 0],
      detectedHoleCount = 18, ocrTeamName = Some ''CORK'', confidence = 4 / 10\<rparr>"
    by (simp only: fallbackCard_parse teamName_5)
  note c1 = u [THEN conjunct2, THEN conjunct2, THEN conjunct1, THEN conjunct1]
  note c2 = u [THEN conjunct2, THEN conjunct2, THEN conjunct1, THEN conjunct2, folded list_all_iff]
  note d2 = u [THEN conjunct2, THEN conjunct2, THEN conjunct2, THEN conjunct1, THEN conjunct2,
      folded list_all_iff]
  have x: "extractScoresForPlayer ?ls 1 4 9 = Inr [4, 5, 3, 4, 5, 3, 4, 5, 3]"
    by code_simp
  have z: "(0::int) \<le> 9" by simp
  note e1 = t [THEN conjunct2, THEN conjunct2, THEN conjunct2, THEN conjunct2, THEN conjunct1,
      THEN mp, OF conjI [OF z x], THEN conjunct1]
  have y: "extractScoresFromRow ?row 9 = [7, 6, 2, 0, 0, 0, 0, 0, 0]"
    by code_simp
  note f1 = t [THEN conjunct2, THEN conjunct2, THEN conjunct2, THEN conjunct2, THEN conjunct2,
      THEN mp, OF z, THEN conjunct1]
  show ?thesis
    apply (intro conjI)
                apply (rule ev1)
               apply (rule a)
              apply (rule ev2)
             apply (rule b1)
            apply (rule b2)
           apply (rule ev3)
          apply (rule c1)
         apply (rule c2)
        apply (rule d2)
       apply (rule x)
      apply (rule e1)
     apply (rule y)
    apply (rule f1)
    done
qed

subsection \<open>No players\<close>

text \<open>
  Claim C8, as amended. The line-based interpreter always returns a result (it raises no
  exception), and when it recovers no player (the empty text included) the result has
  no players, hole count 0 and confidence 0.2. The other two parsers also return an
  empty player list then, but the fallback parser reports hole count 18 (confidence
  0.2) and the bounding-box parser its detected hole count with confidence 0.4.
\<close>

theorem zero_players_result:
  "(\<exists>r. parseScorecard now text = Inr r \<and>
        (playerNames r = [] \<longrightarrow>
           r = \<lparr>playerNames = [], playerHandicaps = [], ocrHoleScores = [],
                detectedHoleCount = 0, ocrTeamName = Some (generateTeamName now),
                confidence = 2 / 10\<rparr>)) \<and>
   parseScorecard now [] =
     Inr \<lparr>playerNames = [], playerHandicaps = [], ocrHoleScores = [],
          detectedHoleCount = 0, ocrTeamName = Some (generateTeamName now),
          confidence = 2 / 10\<rparr> \<and>
   (playerNames (parseScorecard_fallback now text) = [] \<longrightarrow>
      parseScorecard_fallback now text =
        \<lparr>playerNames = [], playerHandicaps = [], ocrHoleScores = [],
         detectedHoleCount = 18, ocrTeamName = Some (generateTeamName now),
         confidence = 2 / 10\<rparr>) \<and>
   (playerNames (parseScorecardWithBoundingBoxes now anns text) = [] \<longrightarrow>
      parseScorecardWithBoundingBoxes now anns text =
        \<lparr>playerNames = [], playerHandicaps = [], ocrHoleScores = [],
         detectedHoleCount = detectHoleCount (groupByRows anns 20),
         ocrTeamName = Some (generateTeamName now),
         confidence = 4 / 10\<rparr>)"
proof -
  have a: "\<exists>r. parseScorecard now text = Inr r \<and>
        (playerNames r = [] \<longrightarrow>
           r = \<lparr>playerNames = [], playerHandicaps = [], ocrHoleScores = [],
                detectedHoleCount = 0, ocrTeamName = Some (generateTeamName now),
                confidence = 2 / 10\<rparr>)"
  proof (cases "findPlayers (textLines text) = []")
    case True
    from parseScorecard_no_players [OF True, of now] show ?thesis by simp
  next
    case False
    from parseScorecard_players [OF False, of now] obtain r where
      r: "parseScorecard now text = Inr r"
      and n: "playerNames r = map playerName (findPlayers (textLines text))" by blast
    from n False have "playerNames r \<noteq> []" by simp
    with r show ?thesis by simp
  qed
  have "findPlayers (textLines []) = []"
    by (simp add: emptyText_lines findPlayers_def)
  from parseScorecard_no_players [OF this, of now]
  have b: "parseScorecard now [] =
     Inr \<lparr>playerNames = [], playerHandicaps = [], ocrHoleScores = [],
          detectedHoleCount = 0, ocrTeamName = Some (generateTeamName now),
          confidence = 2 / 10\<rparr>" .
  have c: "playerNames (parseScorecard_fallback now text) = [] \<longrightarrow>
      parseScorecard_fallback now text =
        \<lparr>playerNames = [], playerHandicaps = [], ocrHoleScores = [],
         detectedHoleCount = 18, ocrTeamName = Some (generateTeamName now),
         confidence = 2 / 10\<rparr>"
    by (simp add: parseScorecard_fallback_def Let_def)
  have d: "playerNames (parseScorecardWithBoundingBoxes now anns text) = [] \<longrightarrow>
      parseScorecardWithBoundingBoxes now anns text =
        \<lparr>playerNames = [], playerHandicaps = [], ocrHoleScores = [],
         detectedHoleCount = detectHoleCount (groupByRows anns 20),
         ocrTeamName = Some (generateTeamName now),
         confidence = 4 / 10\<rparr>"
    by (simp add: parseScorecardWithBoundingBoxes_def Let_def hasRealScores_def)
  from a b c d show ?thesis by blast
qed

theorem zero_players_result_witness:
  "parseScorecard 33 ''Hole 1 2 3'' =
     Inr \<lparr>playerNames = [], playerHandicaps = [], ocrHoleScores = [],
          detectedHoleCount = 0, ocrTeamName = Some ''ARMAGH'', confidence = 2 / 10\<rparr> \<and>
   playerNames (parseScorecard_fallback 33 ''Hole 1 2 3'') = [] \<and>
   parseScorecard_fallback 33 ''Hole 1 2 3'' =
     \<lparr>playerNames = [], playerHandicaps = [], ocrHoleScores = [],
      detectedHoleCount = 18, ocrTeamName = Some ''ARMAGH'', confidence = 2 / 10\<rparr> \<and>
   playerNames (parseScorecardWithBoundingBoxes 33 headerOnly ''Hole 1 2 3'') = [] \<and>
   parseScorecardWithBoundingBoxes 33 headerOnly ''Hole 1 2 3'' =
     \<lparr>playerNames = [], playerHandicaps = [], ocrHoleScores = [],
      detectedHoleCount = 18, ocrTeamName = Some ''ARMAGH'', confidence = 4 / 10\<rparr>"
proof -
  note z = zero_players_result [of 33 "''Hole 1 2 3''" headerOnly]
  have n1: "playerNames (parseScorecard_fallback 33 ''Hole 1 2 3'') = []"
    by (rule headerText_fallback)
  have n2: "playerNames (parseScorecardWithBoundingBoxes 33 headerOnly ''Hole 1 2 3'') = []"
    by (simp add: headerOnly_parse)
  from z obtain r where r: "parseScorecard 33 ''Hole 1 2 3'' = Inr r"
    and r0: "playerNames r = [] \<longrightarrow>
           r = \<lparr>playerNames = [], playerHandicaps = [], ocrHoleScores = [],
                detectedHoleCount = 0, ocrTeamName = Some (generateTeamName 33),
                confidence = 2 / 10\<rparr>"
    by (elim exE conjE)
  from parseScorecard_names [OF r] headerText_no_players have "playerNames r = []" by simp
  with r r0 have a: "parseScorecard 33 ''Hole 1 2 3'' =
     Inr \<lparr>playerNames = [], playerHandicaps = [], ocrHoleScores = [],
          detectedHoleCount = 0, ocrTeamName = Some ''ARMAGH'', confidence = 2 / 10\<rparr>"
    by (simp add: teamName_33)
  from z n1 have b: "parseScorecard_fallback 33 ''Hole 1 2 3'' =
     \<lparr>playerNames = [], playerHandicaps = [], ocrHoleScores = [],
      detectedHoleCount = 18, ocrTeamName = Some ''ARMAGH'', confidence = 2 / 10\<rparr>"
    by (simp add: teamName_33)
  from z n2 have "parseScorecardWithBoundingBoxes 33 headerOnly ''Hole 1 2 3'' =
     \<lparr>playerNames = [], playerHandicaps = [], ocrHoleScores = [],
      detectedHoleCount = detectHoleCount (groupByRows headerOnly 20),
      ocrTeamName = Some (generateTeamName 33), confidence = 4 / 10\<rparr>"
    by (elim conjE) (erule (1) mp)
  then have c: "parseScorecardWithBoundingBoxes 33 headerOnly ''Hole 1 2 3'' =
     \<lparr>playerNames = [], playerHandicaps = [], ocrHoleScores = [],
      detectedHoleCount = 18, ocrTeamName = Some ''ARMAGH'', confidence = 4 / 10\<rparr>"
    by (simp only: teamName_33 headerOnly_rows headerOnly_holes)
  from a n1 b n2 c show ?thesis by blast
qed

text \<open>
  Claim C8 as stated fails for the second module: on the empty text its fallback parser
  (which is what the module runs when there are no annotations) reports hole count 18,
  and on a header-only annotation list its bounding-box parser reports confidence 0.4.
\<close>

theorem zero_players_other_variants:
  "playerNames (parseScorecard_fallback 0 []) = [] \<and>
   detectedHoleCount (parseScorecard_fallback 0 []) = 18 \<and>
   detectedHoleCount (parseScorecard_fallback 0 []) \<noteq> 0 \<and>
   detectedHoleCount (interpretPayload 0 [] []) = 18 \<and>
   playerNames (parseScorecardWithBoundingBoxes 0 headerOnly ''Hole'') = [] \<and>
   confidence (parseScorecardWithBoundingBoxes 0 headerOnly ''Hole'') = 4 / 10 \<and>
   confidence (parseScorecardWithBoundingBoxes 0 headerOnly ''Hole'') \<noteq> 2 / 10 \<and>
   detectedHoleCount (parseScorecardWithBoundingBoxes 0 headerOnly ''Hole'') = 18"
  by (simp add: emptyText_fallback headerOnly_parse interpretPayload_def)

subsection \<open>The clock\<close>

text \<open>
  Claim C9, as amended. Every field of an interpretation result except the team label is
  a function of the payload alone; the team label is \<open>counties[Date.now() mod 32]\<close>, a
  function of the clock alone. Two invocations on the same payload therefore agree in
  every field but the team label, and agree in all fields when their clock readings
  are congruent modulo 32.
\<close>

theorem interpretation_depends_on_clock_for_label_only:
  "(\<exists>r. parseScorecard now text = Inr r \<and>
        parseScorecard now' text = Inr (r\<lparr>ocrTeamName := Some (generateTeamName now')\<rparr>) \<and>
        ocrTeamName r = Some (generateTeamName now)) \<and>
   parseScorecardWithBoundingBoxes now' anns text =
     (parseScorecardWithBoundingBoxes now anns text)\<lparr>ocrTeamName := Some (generateTeamName now')\<rparr> \<and>
   parseScorecard_fallback now' text =
     (parseScorecard_fallback now text)\<lparr>ocrTeamName := Some (generateTeamName now')\<rparr> \<and>
   generateTeamName now = counties ! (now mod 32) \<and>
   (now mod 32 = now' mod 32 \<longrightarrow>
      parseScorecard now text = parseScorecard now' text \<and>
      parseScorecardWithBoundingBoxes now anns text = parseScorecardWithBoundingBoxes now' anns text \<and>
      parseScorecard_fallback now text = parseScorecard_fallback now' text)"
proof -
  from parseScorecard_returns [of now "text"] obtain r where r: "parseScorecard now text = Inr r"
    by blast
  have r': "parseScorecard now' text = Inr (r\<lparr>ocrTeamName := Some (generateTeamName now')\<rparr>)"
    using parseScorecard_clock [of now' "text" now] by (simp add: r)
  have a: "\<exists>r. parseScorecard now text = Inr r \<and>
        parseScorecard now' text = Inr (r\<lparr>ocrTeamName := Some (generateTeamName now')\<rparr>) \<and>
        ocrTeamName r = Some (generateTeamName now)"
    using r r' parseScorecard_teamName [OF r] by blast
  have b: "parseScorecardWithBoundingBoxes now' anns text =
     (parseScorecardWithBoundingBoxes now anns text)\<lparr>ocrTeamName := Some (generateTeamName now')\<rparr>"
    by (simp add: parseScorecardWithBoundingBoxes_def Let_def)
  have c: "parseScorecard_fallback now' text =
     (parseScorecard_fallback now text)\<lparr>ocrTeamName := Some (generateTeamName now')\<rparr>"
    by (simp add: parseScorecard_fallback_def Let_def)
  have len: "length counties = 32" by (simp add: counties_def)
  have g: "generateTeamName n = counties ! (n mod 32)" for n
    by (simp add: generateTeamName_def Let_def len)
  have d: "now mod 32 = now' mod 32 \<longrightarrow>
      parseScorecard now text = parseScorecard now' text \<and>
      parseScorecardWithBoundingBoxes now anns text = parseScorecardWithBoundingBoxes now' anns text \<and>
      parseScorecard_fallback now text = parseScorecard_fallback now' text"
  proof
    assume "now mod 32 = now' mod 32"
    then have e: "generateTeamName now' = generateTeamName now" by (simp add: g)
    from r r' parseScorecard_teamName [OF r] have "parseScorecard now text = parseScorecard now' text"
      by (simp add: e)
    moreover have "parseScorecardWithBoundingBoxes now anns text = parseScorecardWithBoundingBoxes now' anns text"
      by (simp add: parseScorecardWithBoundingBoxes_def Let_def e)
    moreover have "parseScorecard_fallback now text = parseScorecard_fallback now' text"
      by (simp add: parseScorecard_fallback_def Let_def e)
    ultimately show "parseScorecard now text = parseScorecard now' text \<and>
      parseScorecardWithBoundingBoxes now anns text = parseScorecardWithBoundingBoxes now' anns text \<and>
      parseScorecard_fallback now text = parseScorecard_fallback now' text" by blast
  qed
  from a b c g [of now] d show ?thesis by blast
qed

theorem interpretation_depends_on_clock_for_label_only_witness:
  "(33::nat) mod 32 = 1 mod 32 \<and>
   parseScorecard 33 sampleCard = parseScorecard 1 sampleCard \<and>
   parseScorecard 1 sampleCard =
     Inr \<lparr>playerNames = [''J.DOE''], playerHandicaps = [12],
          ocrHoleScores = [[4, 5, 3, 0, 0, 0, 0, 0, 0, 0, 0, 0, 0, 0, 0, 0, 0, 0]],
          detectedHoleCount = 18, ocrTeamName = Some ''ARMAGH'', confidence = 6 / 10\<rparr>"
proof -
  have m: "(33::nat) mod 32 = 1 mod 32" by simp
  have ev: "parseScorecard 1 sampleCard =
     Inr \<lparr>playerNames = [''J.DOE''], playerHandicaps = [12],
          ocrHoleScores = [[4, 5, 3, 0, 0, 0, 0, 0, 0, 0, 0, 0, 0, 0, 0, 0, 0, 0]],
          detectedHoleCount = 18, ocrTeamName = Some ''ARMAGH'', confidence = 6 / 10\<rparr>"
    by (simp only: sampleCard_parse teamName_1)
  note c = interpretation_depends_on_clock_for_label_only [of 33 sampleCard 1 "[]"]
  note c5 = c [THEN conjunct2, THEN conjunct2, THEN conjunct2, THEN conjunct2]
  from c5 [THEN mp, OF m, THEN conjunct1]
  have "parseScorecard 33 sampleCard = parseScorecard 1 sampleCard" .
  with m ev show ?thesis by blast
qed

text \<open>
  Claim C9 as stated fails: on the same (empty) payload, invocations at clock readings 0
  and 1 return different results (team labels ANTRIM and ARMAGH).
\<close>

theorem team_label_changes_with_clock:
  "parseScorecard 0 [] \<noteq> parseScorecard 1 [] \<and>
   parseScorecard 0 [] =
     Inr \<lparr>playerNames = [], playerHandicaps = [], ocrHoleScores = [],
          detectedHoleCount = 0, ocrTeamName = Some ''ANTRIM'', confidence = 2 / 10\<rparr> \<and>
   parseScorecard 1 [] =
     Inr \<lparr>playerNames = [], playerHandicaps = [], ocrHoleScores = [],
          detectedHoleCount = 0, ocrTeamName = Some ''ARMAGH'', confidence = 2 / 10\<rparr>"
proof -
  have np: "findPlayers (textLines []) = []"
    by (simp add: emptyText_lines findPlayers_def)
  have a0: "parseScorecard 0 [] =
     Inr \<lparr>playerNames = [], playerHandicaps = [], ocrHoleScores = [],
          detectedHoleCount = 0, ocrTeamName = Some ''ANTRIM'', confidence = 2 / 10\<rparr>"
    using parseScorecard_no_players [OF np, of 0] by (simp only: teamName_0)
  have a1: "parseScorecard 1 [] =
     Inr \<lparr>playerNames = [], playerHandicaps = [], ocrHoleScores = [],
          detectedHoleCount = 0, ocrTeamName = Some ''ARMAGH'', confidence = 2 / 10\<rparr>"
    using parseScorecard_no_players [OF np, of 1] by (simp only: teamName_1)
  show ?thesis unfolding a0 a1 by simp
qed

end
